theory Spec2Isabelle
  imports Main "HOL-Library.Sublist"
begin

section \<open>The browser driver\<close>

text \<open>
  The scraper of \<^verbatim>\<open>extraction_script.py\<close> drives a browser through Selenium. The
  driver is modelled by the data the scraper can observe: the pages the site serves, the
  elements the lookups find on the loaded page, the value of each attribute read, and
  the exceptions these operations raise. The site is static while a run lasts.
\<close>

datatype error = NoSuchElementException | AttributeError | WebDriverException

text \<open>
  A view button is what \<^verbatim>\<open>get_attribute\<close> answers for each attribute name: the
  value, \<open>None\<close> when the element has no such attribute (Python's \<^verbatim>\<open>None\<close>), or an
  exception.
\<close>

type_synonym web_element = "string \<Rightarrow> error + string option"

definition get_attribute :: "web_element \<Rightarrow> string \<Rightarrow> error + string option" where
  "get_attribute button_elem name = button_elem name"

datatype link = Link (click_error: "error option")

datatype pagination = Pagination (next_link: "link option")

datatype tbody = TBody (button_tags: "web_element list")

datatype table = Table (tbody: "tbody option")

record page =
  hosp :: "table option"
  pagination :: "pagination option"

record website =
  pages :: "int \<Rightarrow> page"
  online :: bool

record webdriver =
  site :: website
  location :: "int option"

definition blank_page :: page where
  "blank_page = \<lparr>hosp = None, pagination = None\<rparr>"

definition loaded_page :: "webdriver \<Rightarrow> page" where
  "loaded_page d = (case location d of None \<Rightarrow> blank_page | Some n \<Rightarrow> pages (site d) n)"

definition Chrome :: "website \<Rightarrow> webdriver" where
  "Chrome w = \<lparr>site = w, location = None\<rparr>"

definition driver_get :: "webdriver \<Rightarrow> int \<Rightarrow> (error + unit) \<times> webdriver" where
  "driver_get d n =
     (if online (site d) then (Inr (), d\<lparr>location := Some n\<rparr>)
      else (Inl WebDriverException, d))"

definition find_element :: "'a option \<Rightarrow> error + 'a" where
  "find_element found = (case found of None \<Rightarrow> Inl NoSuchElementException | Some x \<Rightarrow> Inr x)"

definition click :: "link \<Rightarrow> webdriver \<Rightarrow> (error + unit) \<times> webdriver" where
  "click l d =
     (case click_error l of
        Some e \<Rightarrow> (Inl e, d)
      | None \<Rightarrow> (Inr (), d\<lparr>location := map_option (\<lambda>n. n + 1) (location d)\<rparr>))"

section \<open>The scraper\<close>

datatype level = INFO | ERROR

type_synonym log_record = "level \<times> string \<times> int list"

type_synonym row = "(string \<times> string option) list"

record scraper =
  page_rows :: "row list"
  identifiers :: "row list"
  locations :: "row list"
  contacts :: "row list"
  status :: "row list"
  services :: "row list"
  personnel :: "row list"
  current_page :: int
  stop_page :: "int option"
  test :: bool
  driver :: webdriver
  logger :: "log_record list"

definition log_info :: "string \<Rightarrow> int list \<Rightarrow> scraper \<Rightarrow> scraper" where
  "log_info msg args self = self\<lparr>logger := logger self @ [(INFO, msg, args)]\<rparr>"

definition log_error :: "string \<Rightarrow> int list \<Rightarrow> scraper \<Rightarrow> scraper" where
  "log_error msg args self = self\<lparr>logger := logger self @ [(ERROR, msg, args)]\<rparr>"

definition bind_err :: "error + 'a \<Rightarrow> ('a \<Rightarrow> error + 'b) \<Rightarrow> error + 'b" where
  "bind_err m f = (case m of Inl e \<Rightarrow> Inl e | Inr v \<Rightarrow> f v)"

subsection \<open>The constructor\<close>

text \<open>
  The constructor starts from empty collections, opens a browser session and navigates to
  the listing URL with \<^verbatim>\<open>&page=\<close> and the start page appended. The session is
  modelled as loading the page of that number, so the URL string is not kept. An
  exception of the navigation is logged and the constructor returns normally.
\<close>

definition MHScrapper :: "bool \<Rightarrow> int \<Rightarrow> int option \<Rightarrow> website \<Rightarrow> scraper" where
  "MHScrapper test_mode start_page stop w =
     (let self = \<lparr>page_rows = [], identifiers = [], locations = [], contacts = [],
                  status = [], services = [], personnel = [],
                  current_page = start_page, stop_page = stop, test = test_mode,
                  driver = Chrome w, logger = []\<rparr>;
          self = (if test_mode
                  then log_info ''Ministry of Health data scrapping has started test mode...'' [] self
                  else log_info ''Ministry of Health data scrapping has started...'' [] self)
      in case driver_get (driver self) start_page of
           (Inr u, d) \<Rightarrow> self\<lparr>driver := d\<rparr>
         | (Inl e, d) \<Rightarrow>
             log_error ''An error occurred opening the Ministry of Health webpage'' []
               (self\<lparr>driver := d\<rparr>))"

subsection \<open>Record extraction\<close>

definition page_rows_data :: "web_element \<Rightarrow> error + row" where
  "page_rows_data button_elem =
     bind_err (get_attribute button_elem ''data-state'') (\<lambda>state.
     bind_err (get_attribute button_elem ''data-lga'') (\<lambda>lga.
     bind_err (get_attribute button_elem ''data-ward'') (\<lambda>ward.
     bind_err (get_attribute button_elem ''data-id'') (\<lambda>facility_uid.
     bind_err (get_attribute button_elem ''data-unique_id'') (\<lambda>facility_code.
     bind_err (get_attribute button_elem ''data-facility_name'') (\<lambda>facility_name.
     bind_err (get_attribute button_elem ''data-facility_level'') (\<lambda>facility_level.
     bind_err (get_attribute button_elem ''data-ownership'') (\<lambda>ownership.
     Inr [(''state'', state), (''lga'', lga), (''ward'', ward),
          (''facility_uid'', facility_uid), (''facility_code'', facility_code),
          (''facility_name'', facility_name), (''facility_level'', facility_level),
          (''ownership'', ownership)]))))))))"

definition get_page_rows :: "web_element \<Rightarrow> scraper \<Rightarrow> error + scraper" where
  "get_page_rows button_elem self =
     bind_err (page_rows_data button_elem) (\<lambda>data.
     Inr (self\<lparr>page_rows := page_rows self @ [data]\<rparr>))"

definition identifiers_data :: "web_element \<Rightarrow> error + row" where
  "identifiers_data button_elem =
     bind_err (get_attribute button_elem ''data-id'') (\<lambda>facility_uid.
     bind_err (get_attribute button_elem ''data-unique_id'') (\<lambda>facility_code.
     bind_err (get_attribute button_elem ''data-state_unique_id'') (\<lambda>state_unique_id.
     bind_err (get_attribute button_elem ''data-registration_no'') (\<lambda>registration_no.
     bind_err (get_attribute button_elem ''data-facility_name'') (\<lambda>facility_name.
     bind_err (get_attribute button_elem ''data-alt_facility_name'') (\<lambda>alternate_name.
     bind_err (get_attribute button_elem ''data-start_date'') (\<lambda>start_date.
     bind_err (get_attribute button_elem ''data-ownership'') (\<lambda>ownership.
     bind_err (get_attribute button_elem ''data-ownership_type'') (\<lambda>ownership_type.
     bind_err (get_attribute button_elem ''data-facility_level'') (\<lambda>facility_level.
     bind_err (get_attribute button_elem ''data-facility_level_option'') (\<lambda>facility_level_option.
     bind_err (get_attribute button_elem ''data-operational_days'') (\<lambda>days_of_operation.
     bind_err (get_attribute button_elem ''data-operational_hours'') (\<lambda>hours_of_operation.
     Inr [(''facility_uid'', facility_uid),
          (''facility_code'', facility_code), (''state_unique_id'', state_unique_id),
          (''registration_no'', registration_no), (''facility_name'', facility_name),
          (''alternate_name'', alternate_name), (''start_date'', start_date),
          (''ownership'', ownership), (''ownership_type'', ownership_type),
          (''facility_level'', facility_level),
          (''facility_level_option'', facility_level_option),
          (''days_of_operation'', days_of_operation),
          (''hours_of_operation'', hours_of_operation)])))))))))))))"

definition get_identifiers :: "web_element \<Rightarrow> scraper \<Rightarrow> error + scraper" where
  "get_identifiers button_elem self =
     bind_err (identifiers_data button_elem) (\<lambda>data.
     Inr (self\<lparr>identifiers := identifiers self @ [data]\<rparr>))"

definition location_data :: "web_element \<Rightarrow> error + row" where
  "location_data button_elem =
     bind_err (get_attribute button_elem ''data-id'') (\<lambda>facility_uid.
     bind_err (get_attribute button_elem ''data-state'') (\<lambda>state.
     bind_err (get_attribute button_elem ''data-lga'') (\<lambda>lga.
     bind_err (get_attribute button_elem ''data-ward'') (\<lambda>ward.
     bind_err (get_attribute button_elem ''data-physical_location'') (\<lambda>physical_location.
     bind_err (get_attribute button_elem ''data-postal_address'') (\<lambda>postal_address.
     bind_err (get_attribute button_elem ''data-longitude'') (\<lambda>longitude.
     bind_err (get_attribute button_elem ''data-latitude'') (\<lambda>latitude.
     Inr [(''facility_uid'', facility_uid), (''state'', state), (''lga'', lga),
          (''ward'', ward), (''physical_location'', physical_location),
          (''postal_address'', postal_address), (''longitude'', longitude),
          (''latitude'', latitude)]))))))))"

definition get_location :: "web_element \<Rightarrow> scraper \<Rightarrow> error + scraper" where
  "get_location button_elem self =
     bind_err (location_data button_elem) (\<lambda>data.
     Inr (self\<lparr>locations := locations self @ [data]\<rparr>))"

definition contacts_data :: "web_element \<Rightarrow> error + row" where
  "contacts_data button_elem =
     bind_err (get_attribute button_elem ''data-id'') (\<lambda>facility_uid.
     bind_err (get_attribute button_elem ''data-phone_number'') (\<lambda>phone_number.
     bind_err (get_attribute button_elem ''data-alternate_number'') (\<lambda>alternate_number.
     bind_err (get_attribute button_elem ''data-email_address'') (\<lambda>email_address.
     bind_err (get_attribute button_elem ''data-website'') (\<lambda>website.
     Inr [(''facility_uid'', facility_uid),
          (''phone_number'', phone_number), (''alternate_number'', alternate_number),
          (''email_address'', email_address), (''website'', website)])))))"

definition get_contacts :: "web_element \<Rightarrow> scraper \<Rightarrow> error + scraper" where
  "get_contacts button_elem self =
     bind_err (contacts_data button_elem) (\<lambda>data.
     Inr (self\<lparr>contacts := contacts self @ [data]\<rparr>))"

definition status_data :: "web_element \<Rightarrow> error + row" where
  "status_data button_elem =
     bind_err (get_attribute button_elem ''data-id'') (\<lambda>facility_uid.
     bind_err (get_attribute button_elem ''data-operation_status'') (\<lambda>operation_status.
     bind_err (get_attribute button_elem ''data-registration_status'') (\<lambda>registration_status.
     bind_err (get_attribute button_elem ''data-license_status'') (\<lambda>license_status.
     Inr [(''facility_uid'', facility_uid),
          (''operation_status'', operation_status),
          (''registration_status'', registration_status),
          (''license_status'', license_status)]))))"

definition get_status :: "web_element \<Rightarrow> scraper \<Rightarrow> error + scraper" where
  "get_status button_elem self =
     bind_err (status_data button_elem) (\<lambda>data.
     Inr (self\<lparr>status := status self @ [data]\<rparr>))"

definition services_data :: "web_element \<Rightarrow> error + row" where
  "services_data button_elem =
     bind_err (get_attribute button_elem ''data-id'') (\<lambda>facility_uid.
     bind_err (get_attribute button_elem ''data-outpatient'') (\<lambda>outpatient_service.
     bind_err (get_attribute button_elem ''data-inpatient'') (\<lambda>inpatient_service.
     bind_err (get_attribute button_elem ''data-medical'') (\<lambda>medical_service.
     bind_err (get_attribute button_elem ''data-surgical'') (\<lambda>surgical_service.
     bind_err (get_attribute button_elem ''data-gyn'') (\<lambda>gynecology_service.
     bind_err (get_attribute button_elem ''data-pediatrics'') (\<lambda>pediatrics_service.
     bind_err (get_attribute button_elem ''data-dental'') (\<lambda>dental_service.
     bind_err (get_attribute button_elem ''data-specialservice'') (\<lambda>special_service.
     bind_err (get_attribute button_elem ''data-beds'') (\<lambda>tot_num_beds.
     bind_err (get_attribute button_elem ''data-onsite_laboratory'') (\<lambda>onsite_laboratory.
     bind_err (get_attribute button_elem ''data-onsite_imaging'') (\<lambda>onsite_imaging.
     bind_err (get_attribute button_elem ''data-onsite_pharmarcy'') (\<lambda>onsite_pharmarcy.
     bind_err (get_attribute button_elem ''data-mortuary_services'') (\<lambda>mortuary_services.
     bind_err (get_attribute button_elem ''data-ambulance_services'') (\<lambda>ambulance_services.
     Inr [(''facility_uid'', facility_uid),
          (''outpatient_service'', outpatient_service),
          (''ambulance_services'', ambulance_services),
          (''mortuary_services'', mortuary_services), (''onsite_imaging'', onsite_imaging),
          (''onsite_pharmarcy'', onsite_pharmarcy),
          (''onsite_laboratory'', onsite_laboratory),
          (''tot_num_beds'', tot_num_beds), (''special_service'', special_service),
          (''dental_service'', dental_service),
          (''pediatrics_service'', pediatrics_service),
          (''gynecology_service'', gynecology_service),
          (''surgical_service'', surgical_service),
          (''medical_service'', medical_service),
          (''inpatient_service'', inpatient_service)])))))))))))))))"

definition get_services :: "web_element \<Rightarrow> scraper \<Rightarrow> error + scraper" where
  "get_services button_elem self =
     bind_err (services_data button_elem) (\<lambda>data.
     Inr (self\<lparr>services := services self @ [data]\<rparr>))"

definition personnel_data :: "web_element \<Rightarrow> error + row" where
  "personnel_data button_elem =
     bind_err (get_attribute button_elem ''data-id'') (\<lambda>facility_uid.
     bind_err (get_attribute button_elem ''data-doctors'') (\<lambda>num_of_docs.
     bind_err (get_attribute button_elem ''data-pharmacists'') (\<lambda>num_of_pharms.
     bind_err (get_attribute button_elem ''data-pharmacy_technicians'') (\<lambda>num_of_pharm_technicians.
     bind_err (get_attribute button_elem ''data-dentist'') (\<lambda>num_of_dentists.
     bind_err (get_attribute button_elem ''data-dental_technicians'') (\<lambda>num_of_dental_technicians.
     bind_err (get_attribute button_elem ''data-nurses'') (\<lambda>num_of_nurses.
     bind_err (get_attribute button_elem ''data-midwifes'') (\<lambda>num_of_midwifes.
     bind_err (get_attribute button_elem ''data-nurse_midwife'') (\<lambda>num_of_nurse_midwife.
     bind_err (get_attribute button_elem ''data-lab_technicians'') (\<lambda>num_of_lab_technicians.
     bind_err (get_attribute button_elem ''data-lab_scientists'') (\<lambda>num_of_lab_scientists.
     bind_err (get_attribute button_elem ''data-him_officers'') (\<lambda>num_of_him_officers.
     bind_err (get_attribute button_elem ''data-community_health_officer'') (\<lambda>num_of_community_health_officer.
     bind_err (get_attribute button_elem ''data-community_extension_workers'') (\<lambda>num_of_community_extension_workers.
     bind_err (get_attribute button_elem ''data-jun_community_extension_worker'') (\<lambda>num_of_jun_community_extension_worker.
     bind_err (get_attribute button_elem ''data-env_health_officers'') (\<lambda>num_of_env_health_officers.
     bind_err (get_attribute button_elem ''data-attendants'') (\<lambda>num_of_health_attendants.
     Inr [(''facility_uid'', facility_uid),
          (''num_of_docs'', num_of_docs), (''num_of_pharms'', num_of_pharms),
          (''num_of_midwifes'', num_of_midwifes), (''num_of_nurses'', num_of_nurses),
          (''num_of_nurse_midwife'', num_of_nurse_midwife),
          (''num_of_pharm_technicians'', num_of_pharm_technicians),
          (''num_of_dentists'', num_of_dentists),
          (''num_of_health_attendants'', num_of_health_attendants),
          (''num_of_env_health_officers'', num_of_env_health_officers),
          (''num_of_him_officers'', num_of_him_officers),
          (''num_of_community_health_officer'', num_of_community_health_officer),
          (''num_of_jun_community_extension_worker'', num_of_jun_community_extension_worker),
          (''num_of_community_extension_workers'', num_of_community_extension_workers),
          (''num_of_dental_technicians'', num_of_dental_technicians),
          (''num_of_lab_technicians'', num_of_lab_technicians),
          (''num_of_lab_scientists'', num_of_lab_scientists)])))))))))))))))))"

definition get_personnel :: "web_element \<Rightarrow> scraper \<Rightarrow> error + scraper" where
  "get_personnel button_elem self =
     bind_err (personnel_data button_elem) (\<lambda>data.
     Inr (self\<lparr>personnel := personnel self @ [data]\<rparr>))"

text \<open>
  \<^verbatim>\<open>extract_data\<close> calls the seven extractors in turn on the same object. An
  exception in one of them leaves what the earlier ones appended, so the result carries
  the state reached together with the exception.
\<close>

definition extract_data :: "web_element \<Rightarrow> scraper \<Rightarrow> (error + unit) \<times> scraper" where
  "extract_data button_elem self =
     (case get_page_rows button_elem self of Inl e \<Rightarrow> (Inl e, self) | Inr self \<Rightarrow>
     (case get_identifiers button_elem self of Inl e \<Rightarrow> (Inl e, self) | Inr self \<Rightarrow>
     (case get_location button_elem self of Inl e \<Rightarrow> (Inl e, self) | Inr self \<Rightarrow>
     (case get_contacts button_elem self of Inl e \<Rightarrow> (Inl e, self) | Inr self \<Rightarrow>
     (case get_status button_elem self of Inl e \<Rightarrow> (Inl e, self) | Inr self \<Rightarrow>
     (case get_services button_elem self of Inl e \<Rightarrow> (Inl e, self) | Inr self \<Rightarrow>
     (case get_personnel button_elem self of Inl e \<Rightarrow> (Inl e, self) | Inr self \<Rightarrow>
        (Inr (), self))))))))"

fun extract_buttons_from :: "int \<Rightarrow> web_element list \<Rightarrow> scraper \<Rightarrow> scraper" where
  "extract_buttons_from row_num [] self = self"
| "extract_buttons_from row_num (button # buttons) self =
     (case extract_data button (log_info ''page:{}, row:{}'' [current_page self, row_num] self) of
        (Inr u, self') \<Rightarrow> extract_buttons_from (row_num + 1) buttons self'
      | (Inl e, self') \<Rightarrow>
          extract_buttons_from row_num buttons
            (log_error ''issue extracting data for page:{}, row:{}''
               [current_page self', row_num] self'))"

definition extract_view_buttons_data :: "web_element list \<Rightarrow> scraper \<Rightarrow> scraper" where
  "extract_view_buttons_data view_buttons self = extract_buttons_from 1 view_buttons self"

subsection \<open>Page lookups and pagination\<close>

definition get_page_table :: "scraper \<Rightarrow> table option \<times> scraper" where
  "get_page_table self =
     (case find_element (hosp (loaded_page (driver self))) of
        Inr page_table \<Rightarrow>
          (Some page_table,
           log_info ''getting table tag element for page {}'' [current_page self] self)
      | Inl e \<Rightarrow>
          (None,
           log_error ''An error occurred getting table tag element for page {}''
             [current_page self] self))"

definition get_table_body :: "table option \<Rightarrow> error + tbody" where
  "get_table_body page_table =
     (case page_table of None \<Rightarrow> Inl AttributeError | Some t \<Rightarrow> find_element (tbody t))"

definition get_page_view_buttons :: "tbody \<Rightarrow> web_element list" where
  "get_page_view_buttons table_body = button_tags table_body"

definition get_next_page :: "scraper \<Rightarrow> (error + bool) \<times> scraper" where
  "get_next_page self =
     (case find_element (pagination (loaded_page (driver self))) of
        Inl e \<Rightarrow> (Inl e, self)
      | Inr pager \<Rightarrow>
          (case find_element (next_link pager) of
             Inl e \<Rightarrow>
               (if e = NoSuchElementException
                then (Inr False, log_info ''End of Health Ministry data pages'' [] self)
                else (Inl e, self))
           | Inr next_page \<Rightarrow>
               (case click next_page (driver self) of
                  (Inl e, d) \<Rightarrow>
                    (if e = NoSuchElementException
                     then (Inr False,
                           log_info ''End of Health Ministry data pages'' [] (self\<lparr>driver := d\<rparr>))
                     else (Inl e, self\<lparr>driver := d\<rparr>))
                | (Inr u, d) \<Rightarrow>
                    (Inr True, self\<lparr>driver := d, current_page := current_page self + 1\<rparr>))))"

subsection \<open>The scraping loop\<close>

datatype control = Break | Continue

definition scrape_iteration :: "scraper \<Rightarrow> (error + control) \<times> scraper" where
  "scrape_iteration self0 =
     (case get_page_table self0 of (page_table, self1) \<Rightarrow>
      (case get_table_body page_table of
         Inl e \<Rightarrow> (Inl e, self1)
       | Inr page_body \<Rightarrow>
          (let view_buttons = get_page_view_buttons page_body;
               self2 = extract_view_buttons_data view_buttons self1
           in if test self2 \<and> current_page self2 mod 3 = 2
              then (Inr Break,
                    log_info ''Test conditions have been met, stopping extraction...'' [] self2)
              else if stop_page self2 \<noteq> None \<and> Some (current_page self2) = stop_page self2
              then (Inr Break,
                    log_info ''Stop page conditions have been met, stopping extraction...'' [] self2)
              else (case get_next_page self2 of
                      (Inl e, self3) \<Rightarrow> (Inl e, self3)
                    | (Inr page_bool, self3) \<Rightarrow>
                        if page_bool = False then (Inr Break, self3)
                        else (Inr Continue, self3)))))"

text \<open>
  The \<^verbatim>\<open>while True\<close> loop: an exception of the iteration is logged and the loop goes
  on from the state reached. A run that never leaves the loop has the value \<open>None\<close>.
\<close>

partial_function (option) scrape_loop :: "scraper \<Rightarrow> scraper option" where
  "scrape_loop self =
     (case scrape_iteration self of
        (Inr Break, self') \<Rightarrow> Some self'
      | (Inr Continue, self') \<Rightarrow> scrape_loop self'
      | (Inl e, self') \<Rightarrow>
          scrape_loop (log_error ''An error occurred while scraping the data'' [] self'))"

definition full_data :: "scraper \<Rightarrow> (string \<times> row list) list" where
  "full_data self =
     [(''page_rows'', page_rows self), (''identifiers'', identifiers self),
      (''locations'', locations self), (''contacts'', contacts self),
      (''status'', status self), (''services'', services self),
      (''personnel'', personnel self)]"

definition scrape_mh_data :: "scraper \<Rightarrow> ((string \<times> row list) list \<times> scraper) option" where
  "scrape_mh_data self =
     (case scrape_loop self of None \<Rightarrow> None | Some self' \<Rightarrow> Some (full_data self', self'))"

section \<open>Notions used to state the properties\<close>

text \<open>
  The seven collections, in the order in which \<^verbatim>\<open>extract_data\<close> fills them.
\<close>

definition collections :: "(scraper \<Rightarrow> row list) list" where
  "collections = [page_rows, identifiers, locations, contacts, status, services, personnel]"

text \<open>Every collection of the first state is an initial segment of the same collection of the second.\<close>

definition grows :: "scraper \<Rightarrow> scraper \<Rightarrow> bool" where
  "grows s s' \<longleftrightarrow> (\<forall>c\<in>set collections. prefix (c s) (c s'))"

text \<open>
  A page on which both lookups of an iteration succeed (the table with id \<^verbatim>\<open>hosp\<close> and
  its \<^verbatim>\<open>tbody\<close>), the view buttons the scraper finds on it, and a page whose pagination
  has a next link that can be clicked.
\<close>

definition table_found :: "page \<Rightarrow> bool" where
  "table_found p = (case hosp p of Some (Table (Some body)) \<Rightarrow> True | _ \<Rightarrow> False)"

definition view_buttons_of :: "page \<Rightarrow> web_element list" where
  "view_buttons_of p =
     (case hosp p of Some (Table (Some body)) \<Rightarrow> get_page_view_buttons body | _ \<Rightarrow> [])"

definition next_clickable :: "page \<Rightarrow> bool" where
  "next_clickable p \<longleftrightarrow> pagination p = Some (Pagination (Some (Link None)))"

text \<open>
  Extracting the view buttons of the pages numbered \<open>ns\<close> of a site, one page after the
  other: what a run that visits exactly these pages collects.
\<close>

definition extract_pages :: "website \<Rightarrow> int list \<Rightarrow> scraper \<Rightarrow> scraper" where
  "extract_pages w ns s =
     foldl (\<lambda>a n. extract_view_buttons_data (view_buttons_of (pages w n)) a) s ns"

text \<open>The \<^verbatim>\<open>facility_uid\<close> of every record of a bundle, collection by collection.\<close>

definition uid_of :: "row \<Rightarrow> string" where
  "uid_of d = (case map_of d ''facility_uid'' of Some (Some uid) \<Rightarrow> uid | _ \<Rightarrow> '''')"

definition facility_uids :: "(string \<times> row list) list \<Rightarrow> (string \<times> string list) list" where
  "facility_uids bundle = map (\<lambda>(k, rows). (k, map uid_of rows)) bundle"

text \<open>
  The table of each record kind: the keys of the dict the extractor builds, in the order
  of the dict, each with the attribute its value is read from (\<^verbatim>\<open>get_page_rows\<close>,
  \<^verbatim>\<open>get_identifiers\<close>, \<^verbatim>\<open>get_location\<close>, \<^verbatim>\<open>get_contacts\<close>, \<^verbatim>\<open>get_status\<close>,
  \<^verbatim>\<open>get_services\<close>, \<^verbatim>\<open>get_personnel\<close>).
\<close>

definition page_rows_fields :: "(string \<times> string) list" where
  "page_rows_fields =
     [(''state'', ''data-state''), (''lga'', ''data-lga''), (''ward'', ''data-ward''),
      (''facility_uid'', ''data-id''), (''facility_code'', ''data-unique_id''),
      (''facility_name'', ''data-facility_name''),
      (''facility_level'', ''data-facility_level''), (''ownership'', ''data-ownership'')]"

definition identifiers_fields :: "(string \<times> string) list" where
  "identifiers_fields =
     [(''facility_uid'', ''data-id''), (''facility_code'', ''data-unique_id''),
      (''state_unique_id'', ''data-state_unique_id''),
      (''registration_no'', ''data-registration_no''),
      (''facility_name'', ''data-facility_name''),
      (''alternate_name'', ''data-alt_facility_name''),
      (''start_date'', ''data-start_date''), (''ownership'', ''data-ownership''),
      (''ownership_type'', ''data-ownership_type''),
      (''facility_level'', ''data-facility_level''),
      (''facility_level_option'', ''data-facility_level_option''),
      (''days_of_operation'', ''data-operational_days''),
      (''hours_of_operation'', ''data-operational_hours'')]"

definition location_fields :: "(string \<times> string) list" where
  "location_fields =
     [(''facility_uid'', ''data-id''), (''state'', ''data-state''),
      (''lga'', ''data-lga''), (''ward'', ''data-ward''),
      (''physical_location'', ''data-physical_location''),
      (''postal_address'', ''data-postal_address''), (''longitude'', ''data-longitude''),
      (''latitude'', ''data-latitude'')]"

definition contacts_fields :: "(string \<times> string) list" where
  "contacts_fields =
     [(''facility_uid'', ''data-id''), (''phone_number'', ''data-phone_number''),
      (''alternate_number'', ''data-alternate_number''),
      (''email_address'', ''data-email_address''), (''website'', ''data-website'')]"

definition status_fields :: "(string \<times> string) list" where
  "status_fields =
     [(''facility_uid'', ''data-id''), (''operation_status'', ''data-operation_status''),
      (''registration_status'', ''data-registration_status''),
      (''license_status'', ''data-license_status'')]"

definition services_fields :: "(string \<times> string) list" where
  "services_fields =
     [(''facility_uid'', ''data-id''), (''outpatient_service'', ''data-outpatient''),
      (''ambulance_services'', ''data-ambulance_services''),
      (''mortuary_services'', ''data-mortuary_services''),
      (''onsite_imaging'', ''data-onsite_imaging''),
      (''onsite_pharmarcy'', ''data-onsite_pharmarcy''),
      (''onsite_laboratory'', ''data-onsite_laboratory''),
      (''tot_num_beds'', ''data-beds''), (''special_service'', ''data-specialservice''),
      (''dental_service'', ''data-dental''), (''pediatrics_service'', ''data-pediatrics''),
      (''gynecology_service'', ''data-gyn''), (''surgical_service'', ''data-surgical''),
      (''medical_service'', ''data-medical''), (''inpatient_service'', ''data-inpatient'')]"

definition personnel_fields :: "(string \<times> string) list" where
  "personnel_fields =
     [(''facility_uid'', ''data-id''), (''num_of_docs'', ''data-doctors''),
      (''num_of_pharms'', ''data-pharmacists''), (''num_of_midwifes'', ''data-midwifes''),
      (''num_of_nurses'', ''data-nurses''),
      (''num_of_nurse_midwife'', ''data-nurse_midwife''),
      (''num_of_pharm_technicians'', ''data-pharmacy_technicians''),
      (''num_of_dentists'', ''data-dentist''),
      (''num_of_health_attendants'', ''data-attendants''),
      (''num_of_env_health_officers'', ''data-env_health_officers''),
      (''num_of_him_officers'', ''data-him_officers''),
      (''num_of_community_health_officer'', ''data-community_health_officer''),
      (''num_of_jun_community_extension_worker'', ''data-jun_community_extension_worker''),
      (''num_of_community_extension_workers'', ''data-community_extension_workers''),
      (''num_of_dental_technicians'', ''data-dental_technicians''),
      (''num_of_lab_technicians'', ''data-lab_technicians''),
      (''num_of_lab_scientists'', ''data-lab_scientists'')]"

definition schema :: "(string \<times> string) list list" where
  "schema = [page_rows_fields, identifiers_fields, location_fields, contacts_fields,
             status_fields, services_fields, personnel_fields]"

text \<open>The record a table describes for an element: every key with the raw value of its attribute.\<close>

definition built :: "web_element \<Rightarrow> (string \<times> string) list \<Rightarrow> row" where
  "built b table = map (\<lambda>(k, attr). (k, projr (get_attribute b attr))) table"

text \<open>
  The seven readers in the order of \<^verbatim>\<open>extract_data\<close>, and what the extraction of one
  element adds to the collection number \<open>i\<close>: the record of reader \<open>i\<close> when no reader
  up to \<open>i\<close> raises, and nothing otherwise.
\<close>

definition data_readers :: "(web_element \<Rightarrow> error + row) list" where
  "data_readers = [page_rows_data, identifiers_data, location_data, contacts_data,
                   status_data, services_data, personnel_data]"

definition appended :: "nat \<Rightarrow> web_element \<Rightarrow> row list" where
  "appended i b =
     (if list_ex (\<lambda>reader. isl (reader b)) (take i data_readers) then []
      else (case (data_readers ! i) b of Inl e \<Rightarrow> [] | Inr d \<Rightarrow> [d]))"

text \<open>The view buttons of the pages numbered \<open>ns\<close> of a site, page after page.\<close>

definition listed_buttons :: "website \<Rightarrow> int list \<Rightarrow> web_element list" where
  "listed_buttons w ns = concat (map (\<lambda>n. view_buttons_of (pages w n)) ns)"

section \<open>Example listings\<close>

text \<open>
  A view button with three attributes (it has no \<^verbatim>\<open>data-website\<close>), and one whose
  read of \<^verbatim>\<open>data-registration_no\<close> raises.
\<close>

definition view_button :: "string \<Rightarrow> web_element" where
  "view_button uid name =
     Inr (map_of [(''data-id'', uid), (''data-facility_name'', ''Clinic''),
                  (''data-state'', ''Lagos'')] name)"

definition stale_button :: web_element where
  "stale_button name =
     (if name = ''data-registration_no'' then Inl WebDriverException
      else view_button ''2'' name)"

definition listing_page :: "web_element list \<Rightarrow> bool \<Rightarrow> page" where
  "listing_page bs has_next =
     \<lparr>hosp = Some (Table (Some (TBody bs))),
      pagination = Some (Pagination (if has_next then Some (Link None) else None))\<rparr>"

text \<open>A listing of three pages with one facility each, the same site when it cannot be
  reached, and a one-page site without a pagination container.\<close>

definition listing :: website where
  "listing =
     \<lparr>pages = (\<lambda>n. if n = 1 then listing_page [view_button ''1''] True
                   else if n = 2 then listing_page [view_button ''2''] True
                   else if n = 3 then listing_page [view_button ''3''] False
                   else blank_page),
      online = True\<rparr>"

definition offline :: website where
  "offline = listing\<lparr>online := False\<rparr>"

definition no_pager :: website where
  "no_pager =
     \<lparr>pages = (\<lambda>n. \<lparr>hosp = Some (Table (Some (TBody [view_button ''1'']))),
                       pagination = None\<rparr>),
      online = True\<rparr>"

section \<open>Auxiliary lemmas\<close>

lemma bind_err_Inl [simp]: "bind_err (Inl e) f = Inl e"
  by (simp add: bind_err_def)

lemma bind_err_Inr [simp]: "bind_err (Inr v) f = f v"
  by (simp add: bind_err_def)

lemma bind_err_eq_Inr: "bind_err m f = Inr y \<longleftrightarrow> (\<exists>v. m = Inr v \<and> f v = Inr y)"
  by (cases m) simp_all

lemma page_rows_data_uid:
  "page_rows_data b = Inr d \<Longrightarrow> \<exists>uid. get_attribute b ''data-id'' = Inr uid \<and> map_of d ''facility_uid'' = Some uid"
  unfolding page_rows_data_def by (auto simp: bind_err_eq_Inr)
lemma identifiers_data_uid:
  "identifiers_data b = Inr d \<Longrightarrow> \<exists>uid. get_attribute b ''data-id'' = Inr uid \<and> map_of d ''facility_uid'' = Some uid"
  unfolding identifiers_data_def by (auto simp: bind_err_eq_Inr)
lemma location_data_uid:
  "location_data b = Inr d \<Longrightarrow> \<exists>uid. get_attribute b ''data-id'' = Inr uid \<and> map_of d ''facility_uid'' = Some uid"
  unfolding location_data_def by (auto simp: bind_err_eq_Inr)
lemma contacts_data_uid:
  "contacts_data b = Inr d \<Longrightarrow> \<exists>uid. get_attribute b ''data-id'' = Inr uid \<and> map_of d ''facility_uid'' = Some uid"
  unfolding contacts_data_def by (auto simp: bind_err_eq_Inr)
lemma status_data_uid:
  "status_data b = Inr d \<Longrightarrow> \<exists>uid. get_attribute b ''data-id'' = Inr uid \<and> map_of d ''facility_uid'' = Some uid"
  unfolding status_data_def by (auto simp: bind_err_eq_Inr)
lemma services_data_uid:
  "services_data b = Inr d \<Longrightarrow> \<exists>uid. get_attribute b ''data-id'' = Inr uid \<and> map_of d ''facility_uid'' = Some uid"
  unfolding services_data_def by (auto simp: bind_err_eq_Inr)
lemma personnel_data_uid:
  "personnel_data b = Inr d \<Longrightarrow> \<exists>uid. get_attribute b ''data-id'' = Inr uid \<and> map_of d ''facility_uid'' = Some uid"
  unfolding personnel_data_def by (auto simp: bind_err_eq_Inr)

lemma extract_data_unfold:
  "extract_data b s =
    (case page_rows_data b of Inl e \<Rightarrow> (Inl e, s) | Inr d1 \<Rightarrow>
    (case identifiers_data b of
       Inl e \<Rightarrow> (Inl e, s\<lparr>page_rows := page_rows s @ [d1]\<rparr>) | Inr d2 \<Rightarrow>
    (case location_data b of
       Inl e \<Rightarrow> (Inl e, s\<lparr>page_rows := page_rows s @ [d1], identifiers := identifiers s @ [d2]\<rparr>)
     | Inr d3 \<Rightarrow>
    (case contacts_data b of
       Inl e \<Rightarrow> (Inl e, s\<lparr>page_rows := page_rows s @ [d1], identifiers := identifiers s @ [d2],
                          locations := locations s @ [d3]\<rparr>)
     | Inr d4 \<Rightarrow>
    (case status_data b of
       Inl e \<Rightarrow> (Inl e, s\<lparr>page_rows := page_rows s @ [d1], identifiers := identifiers s @ [d2],
                          locations := locations s @ [d3], contacts := contacts s @ [d4]\<rparr>)
     | Inr d5 \<Rightarrow>
    (case services_data b of
       Inl e \<Rightarrow> (Inl e, s\<lparr>page_rows := page_rows s @ [d1], identifiers := identifiers s @ [d2],
                          locations := locations s @ [d3], contacts := contacts s @ [d4],
                          status := status s @ [d5]\<rparr>)
     | Inr d6 \<Rightarrow>
    (case personnel_data b of
       Inl e \<Rightarrow> (Inl e, s\<lparr>page_rows := page_rows s @ [d1], identifiers := identifiers s @ [d2],
                          locations := locations s @ [d3], contacts := contacts s @ [d4],
                          status := status s @ [d5], services := services s @ [d6]\<rparr>)
     | Inr d7 \<Rightarrow>
         (Inr (), s\<lparr>page_rows := page_rows s @ [d1], identifiers := identifiers s @ [d2],
                    locations := locations s @ [d3], contacts := contacts s @ [d4],
                    status := status s @ [d5], services := services s @ [d6],
                    personnel := personnel s @ [d7]\<rparr>))))))))"
  by (simp add: extract_data_def get_page_rows_def get_identifiers_def get_location_def
      get_contacts_def get_status_def get_services_def get_personnel_def split: sum.splits)

lemma extract_data_frame:
  "extract_data b s = (r, s') \<Longrightarrow>
     current_page s' = current_page s \<and> stop_page s' = stop_page s \<and> test s' = test s \<and>
     driver s' = driver s \<and> logger s' = logger s"
  by (auto simp: extract_data_unfold split: sum.splits)

lemma full_data_eq_iff:
  "full_data s = full_data t \<longleftrightarrow>
     page_rows s = page_rows t \<and> identifiers s = identifiers t \<and> locations s = locations t \<and>
     contacts s = contacts t \<and> status s = status t \<and> services s = services t \<and>
     personnel s = personnel t"
  by (simp add: full_data_def)

lemma extract_data_cong:
  "full_data s = full_data t \<Longrightarrow>
     fst (extract_data b s) = fst (extract_data b t) \<and>
     full_data (snd (extract_data b s)) = full_data (snd (extract_data b t))"
  by (simp add: extract_data_unfold full_data_eq_iff split: sum.splits)

lemma full_data_log [simp]:
  "full_data (log_info m a s) = full_data s" "full_data (log_error m a s) = full_data s"
  by (simp_all add: full_data_def log_info_def log_error_def)

lemma log_fields [simp]:
  "current_page (log_info m a s) = current_page s" "stop_page (log_info m a s) = stop_page s"
  "test (log_info m a s) = test s" "driver (log_info m a s) = driver s"
  "current_page (log_error m a s) = current_page s" "stop_page (log_error m a s) = stop_page s"
  "test (log_error m a s) = test s" "driver (log_error m a s) = driver s"
  by (simp_all add: log_info_def log_error_def)

lemma extract_buttons_from_cong:
  "full_data s = full_data t \<Longrightarrow>
     full_data (extract_buttons_from m bs s) = full_data (extract_buttons_from n bs t)"
proof (induction bs arbitrary: m n s t)
  case Nil
  then show ?case by simp
next
  case (Cons b bs)
  let ?s = "log_info ''page:{}, row:{}'' [current_page s, m] s"
  let ?t = "log_info ''page:{}, row:{}'' [current_page t, n] t"
  from Cons.prems have eq: "full_data ?s = full_data ?t" by simp
  obtain r s' where es: "extract_data b ?s = (r, s')" by (cases "extract_data b ?s")
  obtain r' t' where et': "extract_data b ?t = (r', t')" by (cases "extract_data b ?t")
  from extract_data_cong [OF eq, of b] es et'
  have "r' = r" and dd: "full_data s' = full_data t'" by simp_all
  with et' have et: "extract_data b ?t = (r, t')" by simp
  show ?case
  proof (cases r)
    case (Inl e)
    have "full_data (log_error ''issue extracting data for page:{}, row:{}'' [current_page s', m] s')
        = full_data (log_error ''issue extracting data for page:{}, row:{}'' [current_page t', n] t')"
      using dd by simp
    from Cons.IH [OF this] show ?thesis
      by (simp add: es et Inl)
  next
    case (Inr u)
    from Cons.IH [OF dd] show ?thesis
      by (simp add: es et Inr)
  qed
qed

lemma extract_buttons_from_frame:
  "current_page (extract_buttons_from m bs s) = current_page s \<and>
   stop_page (extract_buttons_from m bs s) = stop_page s \<and>
   test (extract_buttons_from m bs s) = test s \<and>
   driver (extract_buttons_from m bs s) = driver s"
proof (induction bs arbitrary: m s)
  case Nil
  then show ?case by simp
next
  case (Cons b bs)
  let ?s = "log_info ''page:{}, row:{}'' [current_page s, m] s"
  obtain r s' where e: "extract_data b ?s = (r, s')" by (cases "extract_data b ?s")
  from extract_data_frame [OF e] show ?case
    by (cases r) (simp_all add: e Cons.IH)
qed

lemma find_element_simps [simp]:
  "find_element None = Inl NoSuchElementException" "find_element (Some x) = Inr x"
  by (simp_all add: find_element_def)

lemma extract_view_buttons_data_frame [simp]:
  "current_page (extract_view_buttons_data bs s) = current_page s"
  "stop_page (extract_view_buttons_data bs s) = stop_page s"
  "test (extract_view_buttons_data bs s) = test s"
  "driver (extract_view_buttons_data bs s) = driver s"
  by (simp_all add: extract_view_buttons_data_def extract_buttons_from_frame)

lemma extract_view_buttons_data_cong:
  "full_data s = full_data t \<Longrightarrow>
     full_data (extract_view_buttons_data bs s) = full_data (extract_view_buttons_data bs t)"
  unfolding extract_view_buttons_data_def by (rule extract_buttons_from_cong)

lemma get_next_page_no_pagination:
  "pagination (loaded_page (driver s)) = None \<Longrightarrow>
     get_next_page s = (Inl NoSuchElementException, s)"
  by (simp add: get_next_page_def)

lemma get_next_page_no_link:
  "pagination (loaded_page (driver s)) = Some (Pagination None) \<Longrightarrow>
     get_next_page s = (Inr False, log_info ''End of Health Ministry data pages'' [] s)"
  by (simp add: get_next_page_def)

lemma get_next_page_click:
  "pagination (loaded_page (driver s)) = Some (Pagination (Some (Link None))) \<Longrightarrow>
     get_next_page s =
       (Inr True, s\<lparr>driver := (driver s)\<lparr>location := map_option (\<lambda>n. n + 1) (location (driver s))\<rparr>,
                     current_page := current_page s + 1\<rparr>)"
  by (simp add: get_next_page_def click_def)

lemma get_next_page_raises:
  "get_next_page s = (Inl e, s') \<Longrightarrow> s' = s"
  by (auto simp: get_next_page_def click_def split: sum.splits option.splits if_splits prod.splits)

lemma get_next_page_frame:
  "get_next_page s = (r, s') \<Longrightarrow>
     test s' = test s \<and> stop_page s' = stop_page s \<and> site (driver s') = site (driver s) \<and>
     full_data s' = full_data s"
  by (auto simp: get_next_page_def click_def full_data_def log_info_def
      split: sum.splits option.splits if_splits prod.splits)

lemma scrape_iteration_no_table:
  "hosp (loaded_page (driver s)) = None \<Longrightarrow>
     scrape_iteration s =
       (Inl AttributeError,
        log_error ''An error occurred getting table tag element for page {}'' [current_page s] s)"
  by (simp add: scrape_iteration_def get_page_table_def get_table_body_def)

lemma scrape_iteration_no_tbody:
  "hosp (loaded_page (driver s)) = Some (Table None) \<Longrightarrow>
     scrape_iteration s =
       (Inl NoSuchElementException,
        log_info ''getting table tag element for page {}'' [current_page s] s)"
  by (simp add: scrape_iteration_def get_page_table_def get_table_body_def)

lemma scrape_iteration_table:
  assumes "hosp (loaded_page (driver s)) = Some (Table (Some (TBody bs)))"
  shows "scrape_iteration s =
     (let s2 = extract_view_buttons_data bs
                 (log_info ''getting table tag element for page {}'' [current_page s] s)
      in if test s \<and> current_page s mod 3 = 2
         then (Inr Break,
               log_info ''Test conditions have been met, stopping extraction...'' [] s2)
         else if stop_page s = Some (current_page s)
         then (Inr Break,
               log_info ''Stop page conditions have been met, stopping extraction...'' [] s2)
         else (case get_next_page s2 of
                 (Inl e, s3) \<Rightarrow> (Inl e, s3)
               | (Inr page_bool, s3) \<Rightarrow>
                   if page_bool then (Inr Continue, s3) else (Inr Break, s3)))"
  using assms
  by (auto simp: scrape_iteration_def get_page_table_def get_table_body_def
      get_page_view_buttons_def Let_def split: prod.splits sum.splits)

lemma hosp_cases:
  obtains "hosp p = None" | "hosp p = Some (Table None)"
  | bs where "hosp p = Some (Table (Some (TBody bs)))"
proof (cases "hosp p")
  case None
  then show ?thesis using that by simp
next
  case (Some t)
  then show ?thesis using that
    by (cases t; cases "tbody t"; cases "the (tbody t)") auto
qed

lemma scrape_iteration_raises:
  assumes "scrape_iteration s = (Inl e, s1)"
  shows "driver s1 = driver s \<and> current_page s1 = current_page s \<and> test s1 = test s \<and>
         stop_page s1 = stop_page s"
proof (cases "loaded_page (driver s)" rule: hosp_cases)
  case 1
  with assms show ?thesis by (auto simp: scrape_iteration_no_table)
next
  case 2
  with assms show ?thesis by (auto simp: scrape_iteration_no_tbody)
next
  case (3 bs)
  with assms show ?thesis
    by (auto simp: scrape_iteration_table Let_def split: if_splits prod.splits sum.splits
        dest!: get_next_page_raises)
qed

lemma scrape_loop_diverges:
  assumes step: "\<And>s. I s \<Longrightarrow> \<exists>e s1. scrape_iteration s = (Inl e, s1) \<and>
        I (log_error ''An error occurred while scraping the data'' [] s1)"
    and "I s"
  shows "scrape_loop s = None"
proof -
  have "\<not> I x" if "scrape_loop x = Some y" for x y
  proof (rule scrape_loop.raw_induct [where P = "\<lambda>x y. \<not> I x", OF _ that])
    fix f st res
    assume IH: "\<And>x y. f x = Some y \<Longrightarrow> \<not> I x"
      and eq: "(case scrape_iteration st of
          (Inl e, self') \<Rightarrow> f (log_error ''An error occurred while scraping the data'' [] self')
        | (Inr Break, self') \<Rightarrow> Some self'
        | (Inr Continue, self') \<Rightarrow> f self') = Some res"
    show "\<not> I st"
    proof
      assume "I st"
      from step [OF this] obtain e s1 where
        it: "scrape_iteration st = (Inl e, s1)"
        and I1: "I (log_error ''An error occurred while scraping the data'' [] s1)"
        by blast
      from eq it have
        "f (log_error ''An error occurred while scraping the data'' [] s1) = Some res"
        by simp
      from IH [OF this] I1 show False by simp
    qed
  qed
  with \<open>I s\<close> show ?thesis by (cases "scrape_loop s") auto
qed

lemma no_table_diverges:
  assumes "hosp (loaded_page (driver s)) = None"
  shows "scrape_loop s = None"
proof (rule scrape_loop_diverges [where I = "\<lambda>s. hosp (loaded_page (driver s)) = None"])
  fix s :: scraper assume "hosp (loaded_page (driver s)) = None"
  then show "\<exists>e s1. scrape_iteration s = (Inl e, s1) \<and>
      hosp (loaded_page (driver (log_error ''An error occurred while scraping the data'' [] s1))) = None"
    by (simp add: scrape_iteration_no_table)
qed (rule assms)

lemma no_pagination_diverges:
  assumes "pagination (loaded_page (driver s)) = None"
    and "\<not> (test s \<and> current_page s mod 3 = 2)"
    and "stop_page s \<noteq> Some (current_page s)"
  shows "scrape_loop s = None"
proof (rule scrape_loop_diverges [where I = "\<lambda>s. pagination (loaded_page (driver s)) = None
      \<and> \<not> (test s \<and> current_page s mod 3 = 2) \<and> stop_page s \<noteq> Some (current_page s)"])
  fix s :: scraper
  assume I: "pagination (loaded_page (driver s)) = None
      \<and> \<not> (test s \<and> current_page s mod 3 = 2) \<and> stop_page s \<noteq> Some (current_page s)"
  have "\<exists>e s1. scrape_iteration s = (Inl e, s1)"
  proof (cases "loaded_page (driver s)" rule: hosp_cases)
    case 1
    then show ?thesis by (simp add: scrape_iteration_no_table)
  next
    case 2
    then show ?thesis by (simp add: scrape_iteration_no_tbody)
  next
    case (3 bs)
    with I show ?thesis
      by (simp add: scrape_iteration_table Let_def get_next_page_no_pagination)
  qed
  then obtain e s1 where it: "scrape_iteration s = (Inl e, s1)" by blast
  from scrape_iteration_raises [OF it] I it
  show "\<exists>e s1. scrape_iteration s = (Inl e, s1) \<and>
      (pagination (loaded_page (driver (log_error ''An error occurred while scraping the data'' [] s1))) = None
      \<and> \<not> (test (log_error ''An error occurred while scraping the data'' [] s1)
          \<and> current_page (log_error ''An error occurred while scraping the data'' [] s1) mod 3 = 2)
      \<and> stop_page (log_error ''An error occurred while scraping the data'' [] s1)
          \<noteq> Some (current_page (log_error ''An error occurred while scraping the data'' [] s1)))"
    by simp
qed (use assms in simp)

lemma table_foundD:
  "table_found p \<Longrightarrow> hosp p = Some (Table (Some (TBody (view_buttons_of p))))"
  by (cases p rule: hosp_cases)
    (simp_all add: table_found_def view_buttons_of_def get_page_view_buttons_def)

lemma scrape_loop_break:
  "scrape_iteration s = (Inr Break, s') \<Longrightarrow> scrape_loop s = Some s'"
  by (subst scrape_loop.simps) simp

lemma scrape_loop_continue:
  "scrape_iteration s = (Inr Continue, s') \<Longrightarrow> scrape_loop s = scrape_loop s'"
  by (subst scrape_loop.simps) simp

lemma scrape_loop_raise:
  "scrape_iteration s = (Inl e, s') \<Longrightarrow>
     scrape_loop s = scrape_loop (log_error ''An error occurred while scraping the data'' [] s')"
  by (subst scrape_loop.simps) simp

lemma scrape_loop_rel:
  assumes run: "scrape_loop s = Some s'"
    and step: "\<And>s r s1. scrape_iteration s = (r, s1) \<Longrightarrow> R s s1"
    and logged: "\<And>s. R s (log_error ''An error occurred while scraping the data'' [] s)"
    and trans: "\<And>a b c. R a b \<Longrightarrow> R b c \<Longrightarrow> R a c"
  shows "R s s'"
proof (rule scrape_loop.raw_induct [where P = R, OF _ run])
  fix f st res
  assume IH: "\<And>x y. f x = Some y \<Longrightarrow> R x y"
    and eq: "(case scrape_iteration st of
        (Inl e, self') \<Rightarrow> f (log_error ''An error occurred while scraping the data'' [] self')
      | (Inr Break, self') \<Rightarrow> Some self'
      | (Inr Continue, self') \<Rightarrow> f self') = Some res"
  obtain r s1 where it: "scrape_iteration st = (r, s1)" by (cases "scrape_iteration st")
  note R1 = step [OF it]
  show "R st res"
  proof (cases r)
    case (Inl e)
    with eq it have "f (log_error ''An error occurred while scraping the data'' [] s1) = Some res"
      by simp
    from IH [OF this] have "R (log_error ''An error occurred while scraping the data'' [] s1) res" .
    with R1 logged [of s1] show ?thesis by (blast intro: trans)
  next
    case (Inr c)
    show ?thesis
    proof (cases c)
      case Break
      with Inr eq it R1 show ?thesis by simp
    next
      case Continue
      with Inr eq it have "f s1 = Some res" by simp
      from IH [OF this] R1 show ?thesis by (blast intro: trans)
    qed
  qed
qed

lemma grows_refl [simp]: "grows s s"
  by (simp add: grows_def)

lemma grows_trans: "grows a b \<Longrightarrow> grows b c \<Longrightarrow> grows a c"
  unfolding grows_def by (meson prefix_order.trans)

lemma grows_full_data: "full_data a = full_data b \<Longrightarrow> grows a b"
  by (simp add: grows_def collections_def full_data_eq_iff)

lemma extract_data_grows: "extract_data b s = (r, s') \<Longrightarrow> grows s s'"
  by (auto simp: extract_data_unfold grows_def collections_def split: sum.splits)

lemma extract_buttons_from_grows: "grows s (extract_buttons_from m bs s)"
proof (induction bs arbitrary: m s)
  case Nil
  then show ?case by simp
next
  case (Cons b bs)
  let ?s = "log_info ''page:{}, row:{}'' [current_page s, m] s"
  obtain r s' where e: "extract_data b ?s = (r, s')" by (cases "extract_data b ?s")
  have 1: "grows s ?s" by (rule grows_full_data) simp
  note 2 = extract_data_grows [OF e]
  show ?case
  proof (cases r)
    case (Inl err)
    let ?t = "log_error ''issue extracting data for page:{}, row:{}'' [current_page s', m] s'"
    have "grows s' ?t" by (rule grows_full_data) simp
    with 1 2 Cons.IH [of ?t m] show ?thesis
      by (simp add: e Inl) (meson grows_trans)
  next
    case (Inr u)
    with 1 2 Cons.IH [of s' "m + 1"] show ?thesis
      by (simp add: e) (meson grows_trans)
  qed
qed

lemma scrape_iteration_grows:
  assumes "scrape_iteration s = (r, s1)"
  shows "grows s s1"
proof (cases "loaded_page (driver s)" rule: hosp_cases)
  case 1
  with assms show ?thesis by (auto simp: scrape_iteration_no_table intro: grows_full_data)
next
  case 2
  with assms show ?thesis by (auto simp: scrape_iteration_no_tbody intro: grows_full_data)
next
  case (3 bs)
  let ?s = "log_info ''getting table tag element for page {}'' [current_page s] s"
  let ?s2 = "extract_view_buttons_data bs ?s"
  have a: "grows s ?s2"
    using extract_buttons_from_grows [of ?s 1 bs] grows_full_data [of s ?s]
    by (simp add: extract_view_buttons_data_def) (meson grows_trans)
  have "grows ?s2 s1"
    using assms 3
    by (auto simp: scrape_iteration_table Let_def split: if_splits prod.splits sum.splits
        dest!: get_next_page_frame intro!: grows_full_data)
  with a show ?thesis by (rule grows_trans)
qed

lemma scrape_loop_grows: "scrape_loop s = Some s' \<Longrightarrow> grows s s'"
  by (rule scrape_loop_rel [where R = grows])
    (auto intro: scrape_iteration_grows grows_full_data grows_trans)

lemma extract_pages_Nil [simp]: "extract_pages w [] s = s"
  by (simp add: extract_pages_def)

lemma extract_pages_Cons [simp]:
  "extract_pages w (n # ns) s =
     extract_pages w ns (extract_view_buttons_data (view_buttons_of (pages w n)) s)"
  by (simp add: extract_pages_def)

lemma extract_pages_cong:
  "full_data s = full_data t \<Longrightarrow> full_data (extract_pages w ns s) = full_data (extract_pages w ns t)"
proof (induction ns arbitrary: s t)
  case Nil
  then show ?case by simp
next
  case (Cons n ns)
  show ?case
    unfolding extract_pages_Cons
    by (rule Cons.IH, rule extract_view_buttons_data_cong, rule Cons.prems)
qed

lemma MHScrapper_online:
  assumes "online w"
  shows "test (MHScrapper t p sp w) = t" "current_page (MHScrapper t p sp w) = p"
    "stop_page (MHScrapper t p sp w) = sp"
    "driver (MHScrapper t p sp w) = \<lparr>site = w, location = Some p\<rparr>"
    "full_data (MHScrapper t p sp w) =
       [(''page_rows'', []), (''identifiers'', []), (''locations'', []), (''contacts'', []),
        (''status'', []), (''services'', []), (''personnel'', [])]"
  using assms
  by (simp_all add: MHScrapper_def Let_def driver_get_def Chrome_def log_info_def full_data_def)

lemma MHScrapper_offline:
  assumes "\<not> online w"
  shows "driver (MHScrapper t p sp w) = \<lparr>site = w, location = None\<rparr>"
  using assms
  by (simp add: MHScrapper_def Let_def driver_get_def Chrome_def log_info_def log_error_def)

lemma iteration_advance:
  assumes "location (driver s) = Some n" "table_found (pages (site (driver s)) n)"
    "next_clickable (pages (site (driver s)) n)"
    "\<not> (test s \<and> current_page s mod 3 = 2)" "stop_page s \<noteq> Some (current_page s)"
  shows "\<exists>s1. scrape_iteration s = (Inr Continue, s1) \<and>
           full_data s1 = full_data (extract_view_buttons_data (view_buttons_of (pages (site (driver s)) n)) s) \<and>
           current_page s1 = current_page s + 1 \<and>
           driver s1 = (driver s)\<lparr>location := Some (n + 1)\<rparr> \<and>
           test s1 = test s \<and> stop_page s1 = stop_page s"
proof -
  let ?p = "pages (site (driver s)) n"
  let ?s = "log_info ''getting table tag element for page {}'' [current_page s] s"
  let ?s2 = "extract_view_buttons_data (view_buttons_of ?p) ?s"
  have lp: "loaded_page (driver s) = ?p" using assms(1) by (simp add: loaded_page_def)
  have h: "hosp (loaded_page (driver s)) = Some (Table (Some (TBody (view_buttons_of ?p))))"
    using table_foundD [OF assms(2)] lp by simp
  have pg: "pagination (loaded_page (driver ?s2)) = Some (Pagination (Some (Link None)))"
    using assms(3) lp by (simp add: next_clickable_def)
  have fd: "full_data ?s2 = full_data (extract_view_buttons_data (view_buttons_of ?p) s)"
    by (rule extract_view_buttons_data_cong) simp
  let ?s3 = "?s2\<lparr>driver := (driver ?s2)\<lparr>location := map_option (\<lambda>n. n + 1) (location (driver ?s2))\<rparr>,
                  current_page := current_page ?s2 + 1\<rparr>"
  have it: "scrape_iteration s = (Inr Continue, ?s3)"
    using assms(4,5)
    by (simp add: scrape_iteration_table [OF h] Let_def get_next_page_click [OF pg])
  have "full_data ?s3 = full_data ?s2" by (simp add: full_data_def)
  with fd have "full_data ?s3 = full_data (extract_view_buttons_data (view_buttons_of ?p) s)"
    by simp
  moreover have "current_page ?s3 = current_page s + 1" "test ?s3 = test s"
    "stop_page ?s3 = stop_page s" by simp_all
  moreover have "driver ?s3 = (driver s)\<lparr>location := Some (n + 1)\<rparr>"
    using assms(1) by simp
  ultimately show ?thesis using it by blast
qed

lemma iteration_stop_page:
  assumes "location (driver s) = Some n" "table_found (pages (site (driver s)) n)"
    "\<not> (test s \<and> current_page s mod 3 = 2)" "stop_page s = Some (current_page s)"
  shows "\<exists>s1. scrape_iteration s = (Inr Break, s1) \<and>
           full_data s1 = full_data (extract_view_buttons_data (view_buttons_of (pages (site (driver s)) n)) s) \<and>
           current_page s1 = current_page s \<and> driver s1 = driver s"
proof -
  let ?p = "pages (site (driver s)) n"
  let ?s = "log_info ''getting table tag element for page {}'' [current_page s] s"
  have lp: "loaded_page (driver s) = ?p" using assms(1) by (simp add: loaded_page_def)
  have h: "hosp (loaded_page (driver s)) = Some (Table (Some (TBody (view_buttons_of ?p))))"
    using table_foundD [OF assms(2)] lp by simp
  have fd: "full_data (extract_view_buttons_data (view_buttons_of ?p) ?s)
      = full_data (extract_view_buttons_data (view_buttons_of ?p) s)"
    by (rule extract_view_buttons_data_cong) simp
  show ?thesis
    using assms(3,4) fd
    by (simp add: scrape_iteration_table [OF h] Let_def)
qed

lemma run_to_stop_page:
  assumes "k = nat (S - current_page s)" "\<not> test s" "stop_page s = Some S"
    "location (driver s) = Some (current_page s)" "current_page s \<le> S"
    "\<forall>n\<in>{current_page s..S}. table_found (pages (site (driver s)) n)"
    "\<forall>n\<in>{current_page s..<S}. next_clickable (pages (site (driver s)) n)"
  shows "\<exists>s'. scrape_loop s = Some s' \<and>
           full_data s' = full_data (extract_pages (site (driver s)) [current_page s..S] s) \<and>
           current_page s' = S \<and> driver s' = (driver s)\<lparr>location := Some S\<rparr>"
  using assms
proof (induction k arbitrary: s)
  case 0
  then have eq: "current_page s = S" by simp
  with 0 have tf: "table_found (pages (site (driver s)) S)" by simp
  from 0 have nt: "\<not> (test s \<and> current_page s mod 3 = 2)" by simp
  from 0 eq have "location (driver s) = Some S" "stop_page s = Some (current_page s)" by simp_all
  from iteration_stop_page [OF this(1) tf nt this(2)]
  obtain s1 where it: "scrape_iteration s = (Inr Break, s1)"
    and fd: "full_data s1 = full_data (extract_view_buttons_data (view_buttons_of (pages (site (driver s)) S)) s)"
    and cp: "current_page s1 = current_page s" and dr: "driver s1 = driver s"
    by blast
  have "driver s = (driver s)\<lparr>location := Some S\<rparr>"
    using 0(4) eq by (cases "driver s") simp
  with scrape_loop_break [OF it] fd cp dr eq show ?case
    by simp
next
  case (Suc k)
  let ?n = "current_page s"
  let ?w = "site (driver s)"
  from Suc.prems have lt: "?n < S" by simp
  with Suc.prems have tf: "table_found (pages ?w ?n)" and nc: "next_clickable (pages ?w ?n)"
    by simp_all
  from lt Suc.prems have ns: "stop_page s \<noteq> Some ?n" by simp
  from Suc.prems have nt: "\<not> (test s \<and> ?n mod 3 = 2)" by simp
  from iteration_advance [of s ?n, OF Suc.prems(4) tf nc nt ns]
  obtain s1 where it: "scrape_iteration s = (Inr Continue, s1)"
    and fd: "full_data s1 = full_data (extract_view_buttons_data (view_buttons_of (pages ?w ?n)) s)"
    and cp: "current_page s1 = ?n + 1"
    and dr: "driver s1 = (driver s)\<lparr>location := Some (?n + 1)\<rparr>"
    and ts: "test s1 = test s" and sp: "stop_page s1 = stop_page s"
    by blast
  have "\<exists>s'. scrape_loop s1 = Some s' \<and>
           full_data s' = full_data (extract_pages (site (driver s1)) [current_page s1..S] s1) \<and>
           current_page s' = S \<and> driver s' = (driver s1)\<lparr>location := Some S\<rparr>"
  proof (rule Suc.IH)
    show "k = nat (S - current_page s1)" using Suc.prems(1) cp by simp
    show "\<not> test s1" using ts Suc.prems by simp
    show "stop_page s1 = Some S" using sp Suc.prems by simp
    show "location (driver s1) = Some (current_page s1)" using dr cp by simp
    show "current_page s1 \<le> S" using cp lt by simp
    show "\<forall>n\<in>{current_page s1..S}. table_found (pages (site (driver s1)) n)"
      using Suc.prems(6) cp dr by simp
    show "\<forall>n\<in>{current_page s1..<S}. next_clickable (pages (site (driver s1)) n)"
      using Suc.prems(7) cp dr by simp
  qed
  then obtain s' where run: "scrape_loop s1 = Some s'"
    and fd': "full_data s' = full_data (extract_pages (site (driver s1)) [current_page s1..S] s1)"
    and cp': "current_page s' = S" and dr': "driver s' = (driver s1)\<lparr>location := Some S\<rparr>"
    by blast
  have "full_data (extract_pages ?w [?n + 1..S] s1)
      = full_data (extract_pages ?w [?n + 1..S] (extract_view_buttons_data (view_buttons_of (pages ?w ?n)) s))"
    by (rule extract_pages_cong) (rule fd)
  also have "\<dots> = full_data (extract_pages ?w [?n..S] s)"
    using lt by (simp add: upto_rec1 [of ?n S])
  finally have "full_data s' = full_data (extract_pages ?w [?n..S] s)"
    using fd' cp dr by simp
  with scrape_loop_continue [OF it] run cp' dr' dr show ?case by simp
qed

lemma scrape_mh_data_Some:
  "scrape_loop s = Some s' \<Longrightarrow> scrape_mh_data s = Some (full_data s', s')"
  by (simp add: scrape_mh_data_def)

lemma scrape_mh_data_None: "scrape_loop s = None \<Longrightarrow> scrape_mh_data s = None"
  by (simp add: scrape_mh_data_def)

lemma scrape_mh_data_SomeD:
  "scrape_mh_data s = Some r \<Longrightarrow> scrape_loop s = Some (snd r) \<and> fst r = full_data (snd r)"
  by (auto simp: scrape_mh_data_def split: option.splits)

lemma extract_buttons_from_append:
  "full_data (extract_buttons_from m (xs @ ys) s) =
     full_data (extract_buttons_from n ys (extract_buttons_from m xs s))"
proof (induction xs arbitrary: m s)
  case Nil
  show ?case by (simp add: extract_buttons_from_cong [of s s m ys n])
next
  case (Cons b xs)
  let ?s = "log_info ''page:{}, row:{}'' [current_page s, m] s"
  obtain r s' where e: "extract_data b ?s = (r, s')" by (cases "extract_data b ?s")
  show ?case by (cases r) (simp_all add: e Cons.IH)
qed

lemma extract_view_buttons_data_split:
  "full_data (extract_view_buttons_data (pre @ b # post) s) =
     full_data (extract_view_buttons_data post (snd (extract_data b (extract_view_buttons_data pre s))))"
proof -
  let ?t = "extract_buttons_from 1 pre s"
  let ?l = "log_info ''page:{}, row:{}'' [current_page ?t, 1] ?t"
  have "full_data (extract_buttons_from 1 (pre @ b # post) s)
      = full_data (extract_buttons_from 1 (b # post) ?t)"
    by (rule extract_buttons_from_append)
  also have "\<dots> = full_data (extract_buttons_from 1 post (snd (extract_data b ?t)))"
  proof -
    obtain r s' where e: "extract_data b ?l = (r, s')" by (cases "extract_data b ?l")
    have "full_data ?l = full_data ?t" by simp
    from extract_data_cong [OF this, of b] e
    have fd: "full_data s' = full_data (snd (extract_data b ?t))" by simp
    show ?thesis
    proof (cases r)
      case (Inl err)
      have "full_data (log_error ''issue extracting data for page:{}, row:{}'' [current_page s', 1] s')
          = full_data (snd (extract_data b ?t))"
        using fd by simp
      from extract_buttons_from_cong [OF this] show ?thesis by (simp add: e Inl)
    next
      case (Inr u)
      from extract_buttons_from_cong [OF fd] show ?thesis by (simp add: e Inr)
    qed
  qed
  finally show ?thesis by (simp add: extract_view_buttons_data_def)
qed

lemma all_less_7:
  "(\<forall>i<7. P i) \<longleftrightarrow> P (0::nat) \<and> P (Suc 0) \<and> P 2 \<and> P 3 \<and> P 4 \<and> P 5 \<and> P 6"
proof -
  have "i < 7 \<longleftrightarrow> i = 0 \<or> i = Suc 0 \<or> i = 2 \<or> i = 3 \<or> i = 4 \<or> i = 5 \<or> i = 6"
    for i :: nat by arith
  then show ?thesis by auto
qed

lemma iteration_stops:
  assumes h: "hosp (loaded_page (driver s)) = Some (Table (Some (TBody bs)))"
    and stop: "(test s \<and> current_page s mod 3 = 2) \<or> stop_page s = Some (current_page s)"
  shows "\<exists>s1. scrape_iteration s = (Inr Break, s1) \<and>
           full_data s1 = full_data (extract_view_buttons_data bs s) \<and>
           current_page s1 = current_page s \<and> driver s1 = driver s \<and>
           last (logger s1) =
             (INFO, if test s \<and> current_page s mod 3 = 2
                    then ''Test conditions have been met, stopping extraction...''
                    else ''Stop page conditions have been met, stopping extraction...'', [])"
proof -
  let ?s = "log_info ''getting table tag element for page {}'' [current_page s] s"
  have fd: "full_data (extract_view_buttons_data bs ?s) = full_data (extract_view_buttons_data bs s)"
    by (rule extract_view_buttons_data_cong) simp
  have lg: "last (logger (log_info m a t)) = (INFO, m, a)" for m a t
    by (simp add: log_info_def)
  show ?thesis
    using stop fd by (auto simp: scrape_iteration_table [OF h] Let_def lg)
qed

lemma iteration_last_page:
  assumes h: "hosp (loaded_page (driver s)) = Some (Table (Some (TBody bs)))"
    and "pagination (loaded_page (driver s)) = Some (Pagination None)"
    and "\<not> (test s \<and> current_page s mod 3 = 2)" "stop_page s \<noteq> Some (current_page s)"
  shows "\<exists>s1. scrape_iteration s = (Inr Break, s1) \<and>
           full_data s1 = full_data (extract_view_buttons_data bs s) \<and>
           current_page s1 = current_page s \<and> driver s1 = driver s"
proof -
  let ?s = "log_info ''getting table tag element for page {}'' [current_page s] s"
  let ?s2 = "extract_view_buttons_data bs ?s"
  have fd: "full_data ?s2 = full_data (extract_view_buttons_data bs s)"
    by (rule extract_view_buttons_data_cong) simp
  have pg: "pagination (loaded_page (driver ?s2)) = Some (Pagination None)"
    using assms(2) by simp
  show ?thesis
    using assms(3,4) fd
    by (simp add: scrape_iteration_table [OF h] Let_def get_next_page_no_link [OF pg])
qed

lemma run_stops:
  assumes h: "hosp (loaded_page (driver s)) = Some (Table (Some (TBody bs)))"
    and stop: "(test s \<and> current_page s mod 3 = 2) \<or> stop_page s = Some (current_page s)"
  shows "\<exists>s'. scrape_loop s = Some s' \<and>
           full_data s' = full_data (extract_view_buttons_data bs s) \<and>
           current_page s' = current_page s \<and> driver s' = driver s \<and>
           last (logger s') =
             (INFO, if test s \<and> current_page s mod 3 = 2
                    then ''Test conditions have been met, stopping extraction...''
                    else ''Stop page conditions have been met, stopping extraction...'', [])"
proof -
  from iteration_stops [OF h stop] obtain s1 where
    it: "scrape_iteration s = (Inr Break, s1)"
    and rest: "full_data s1 = full_data (extract_view_buttons_data bs s) \<and>
           current_page s1 = current_page s \<and> driver s1 = driver s \<and>
           last (logger s1) =
             (INFO, if test s \<and> current_page s mod 3 = 2
                    then ''Test conditions have been met, stopping extraction...''
                    else ''Stop page conditions have been met, stopping extraction...'', [])"
    by blast
  from scrape_loop_break [OF it] rest show ?thesis by blast
qed

lemma run_last_page:
  assumes h: "hosp (loaded_page (driver s)) = Some (Table (Some (TBody bs)))"
    and "pagination (loaded_page (driver s)) = Some (Pagination None)"
    and "\<not> (test s \<and> current_page s mod 3 = 2)" "stop_page s \<noteq> Some (current_page s)"
  shows "\<exists>s'. scrape_loop s = Some s' \<and>
           full_data s' = full_data (extract_view_buttons_data bs s) \<and>
           current_page s' = current_page s \<and> driver s' = driver s"
proof -
  from iteration_last_page [OF assms] obtain s1 where
    it: "scrape_iteration s = (Inr Break, s1)"
    and rest: "full_data s1 = full_data (extract_view_buttons_data bs s) \<and>
           current_page s1 = current_page s \<and> driver s1 = driver s"
    by blast
  from scrape_loop_break [OF it] rest show ?thesis by blast
qed

lemma test_run_two_pages:
  assumes "test s" "current_page s = 1" "location (driver s) = Some 1"
    "stop_page s \<noteq> Some 1"
    "table_found (pages (site (driver s)) 1)" "next_clickable (pages (site (driver s)) 1)"
    "table_found (pages (site (driver s)) 2)"
  shows "\<exists>s'. scrape_loop s = Some s' \<and>
           full_data s' = full_data (extract_pages (site (driver s)) [1, 2] s) \<and>
           current_page s' = 2 \<and> driver s' = (driver s)\<lparr>location := Some 2\<rparr>"
proof -
  let ?w = "site (driver s)"
  have nt: "\<not> (test s \<and> current_page s mod 3 = 2)" using assms(2) by simp
  have ns: "stop_page s \<noteq> Some (current_page s)" using assms(2,4) by simp
  from iteration_advance [OF assms(3,5,6) nt ns]
  obtain s1 where it: "scrape_iteration s = (Inr Continue, s1)"
    and fd: "full_data s1 = full_data (extract_view_buttons_data (view_buttons_of (pages ?w 1)) s)"
    and cp: "current_page s1 = current_page s + 1"
    and dr: "driver s1 = (driver s)\<lparr>location := Some (1 + 1)\<rparr>"
    and ts: "test s1 = test s"
    by blast
  have lp: "loaded_page (driver s1) = pages ?w 2"
    using dr by (simp add: loaded_page_def)
  have h: "hosp (loaded_page (driver s1)) = Some (Table (Some (TBody (view_buttons_of (pages ?w 2)))))"
    using table_foundD [OF assms(7)] lp by simp
  have "(test s1 \<and> current_page s1 mod 3 = 2) \<or> stop_page s1 = Some (current_page s1)"
    using ts cp assms(1,2) by simp
  from run_stops [OF h this]
  obtain s' where run: "scrape_loop s1 = Some s'"
    and fd': "full_data s' = full_data (extract_view_buttons_data (view_buttons_of (pages ?w 2)) s1)"
    and cp': "current_page s' = current_page s1" and dr': "driver s' = driver s1"
    by blast
  have "full_data (extract_view_buttons_data (view_buttons_of (pages ?w 2)) s1)
      = full_data (extract_pages ?w [1, 2] s)"
    using extract_view_buttons_data_cong [OF fd] by simp
  with fd' have "full_data s' = full_data (extract_pages ?w [1, 2] s)" by simp
  moreover have "current_page s' = 2" using cp' cp assms(2) by simp
  moreover have "driver s' = (driver s)\<lparr>location := Some 2\<rparr>" using dr' dr by simp
  moreover have "scrape_loop s = Some s'" using scrape_loop_continue [OF it] run by simp
  ultimately show ?thesis by blast
qed

lemma listing_pages:
  "pages listing 1 = listing_page [view_button ''1''] True"
  "pages listing 2 = listing_page [view_button ''2''] True"
  "pages listing 3 = listing_page [view_button ''3''] False"
  "online listing" "pages offline = pages listing" "\<not> online offline"
  by (simp_all add: listing_def offline_def)

lemma listing_page_simps:
  "table_found (listing_page bs nx)" "view_buttons_of (listing_page bs nx) = bs"
  "next_clickable (listing_page bs True)"
  "hosp (listing_page bs nx) = Some (Table (Some (TBody bs)))"
  "pagination (listing_page bs True) = Some (Pagination (Some (Link None)))"
  "pagination (listing_page bs False) = Some (Pagination None)"
  by (simp_all add: listing_page_def table_found_def view_buttons_of_def next_clickable_def
      get_page_view_buttons_def)

lemma view_button_uids:
  "facility_uids (full_data (extract_view_buttons_data [view_button u] s)) =
     map (\<lambda>(k, us). (k, us @ [u])) (facility_uids (full_data s))"
  by (simp add: facility_uids_def uid_of_def full_data_def extract_view_buttons_data_def
      extract_data_unfold page_rows_data_def identifiers_data_def location_data_def
      contacts_data_def status_data_def services_data_def personnel_data_def
      get_attribute_def view_button_def log_info_def)

lemma listing_ranges:
  "1 \<le> n \<Longrightarrow> n \<le> 3 \<Longrightarrow> table_found (pages listing n)"
  "1 \<le> n \<Longrightarrow> n \<le> 2 \<Longrightarrow> next_clickable (pages listing n)"
  by (auto simp: listing_def listing_page_simps)

lemma no_pager_pages:
  "pages no_pager n = \<lparr>hosp = Some (Table (Some (TBody [view_button ''1'']))), pagination = None\<rparr>"
  "online no_pager"
  by (simp_all add: no_pager_def)

lemma MHScrapper_uids:
  "online w \<Longrightarrow>
     facility_uids (full_data (MHScrapper t p sp w)) =
       [(''page_rows'', []), (''identifiers'', []), (''locations'', []), (''contacts'', []),
        (''status'', []), (''services'', []), (''personnel'', [])]"
  by (simp add: MHScrapper_online facility_uids_def)

lemma data_readers_nth:
  "data_readers ! 0 = page_rows_data" "data_readers ! Suc 0 = identifiers_data"
  "data_readers ! 2 = location_data" "data_readers ! 3 = contacts_data"
  "data_readers ! 4 = status_data" "data_readers ! 5 = services_data"
  "data_readers ! 6 = personnel_data"
  by (simp_all add: data_readers_def)

lemma collections_nth:
  "collections ! 0 = page_rows" "collections ! Suc 0 = identifiers"
  "collections ! 2 = locations" "collections ! 3 = contacts" "collections ! 4 = status"
  "collections ! 5 = services" "collections ! 6 = personnel"
  by (simp_all add: collections_def)

lemma schema_nth:
  "schema ! 0 = page_rows_fields" "schema ! Suc 0 = identifiers_fields"
  "schema ! 2 = location_fields" "schema ! 3 = contacts_fields" "schema ! 4 = status_fields"
  "schema ! 5 = services_fields" "schema ! 6 = personnel_fields"
  by (simp_all add: schema_def)

lemma appended_simps:
  "appended 0 b = (case page_rows_data b of Inl e \<Rightarrow> [] | Inr d \<Rightarrow> [d])"
  "appended (Suc 0) b =
     (if isl (page_rows_data b) then []
      else (case identifiers_data b of Inl e \<Rightarrow> [] | Inr d \<Rightarrow> [d]))"
  "appended 2 b =
     (if isl (page_rows_data b) \<or> isl (identifiers_data b) then []
      else (case location_data b of Inl e \<Rightarrow> [] | Inr d \<Rightarrow> [d]))"
  "appended 3 b =
     (if isl (page_rows_data b) \<or> isl (identifiers_data b) \<or> isl (location_data b) then []
      else (case contacts_data b of Inl e \<Rightarrow> [] | Inr d \<Rightarrow> [d]))"
  "appended 4 b =
     (if isl (page_rows_data b) \<or> isl (identifiers_data b) \<or> isl (location_data b) \<or>
         isl (contacts_data b) then []
      else (case status_data b of Inl e \<Rightarrow> [] | Inr d \<Rightarrow> [d]))"
  "appended 5 b =
     (if isl (page_rows_data b) \<or> isl (identifiers_data b) \<or> isl (location_data b) \<or>
         isl (contacts_data b) \<or> isl (status_data b) then []
      else (case services_data b of Inl e \<Rightarrow> [] | Inr d \<Rightarrow> [d]))"
  "appended 6 b =
     (if isl (page_rows_data b) \<or> isl (identifiers_data b) \<or> isl (location_data b) \<or>
         isl (contacts_data b) \<or> isl (status_data b) \<or> isl (services_data b) then []
      else (case personnel_data b of Inl e \<Rightarrow> [] | Inr d \<Rightarrow> [d]))"
  by (simp_all add: appended_def data_readers_def)

lemma extract_data_appended:
  "page_rows (snd (extract_data b s)) = page_rows s @ appended 0 b"
  "identifiers (snd (extract_data b s)) = identifiers s @ appended (Suc 0) b"
  "locations (snd (extract_data b s)) = locations s @ appended 2 b"
  "contacts (snd (extract_data b s)) = contacts s @ appended 3 b"
  "status (snd (extract_data b s)) = status s @ appended 4 b"
  "services (snd (extract_data b s)) = services s @ appended 5 b"
  "personnel (snd (extract_data b s)) = personnel s @ appended 6 b"
  by (auto simp: extract_data_unfold appended_simps split: sum.splits)

lemma log_collections [simp]:
  "page_rows (log_info m a s) = page_rows s" "identifiers (log_info m a s) = identifiers s"
  "locations (log_info m a s) = locations s" "contacts (log_info m a s) = contacts s"
  "status (log_info m a s) = status s" "services (log_info m a s) = services s"
  "personnel (log_info m a s) = personnel s"
  "page_rows (log_error m a s) = page_rows s" "identifiers (log_error m a s) = identifiers s"
  "locations (log_error m a s) = locations s" "contacts (log_error m a s) = contacts s"
  "status (log_error m a s) = status s" "services (log_error m a s) = services s"
  "personnel (log_error m a s) = personnel s"
  by (simp_all add: log_info_def log_error_def)

lemma extract_buttons_from_appended:
  "page_rows (extract_buttons_from m bs s) = page_rows s @ concat (map (appended 0) bs) \<and>
   identifiers (extract_buttons_from m bs s) = identifiers s @ concat (map (appended (Suc 0)) bs) \<and>
   locations (extract_buttons_from m bs s) = locations s @ concat (map (appended 2) bs) \<and>
   contacts (extract_buttons_from m bs s) = contacts s @ concat (map (appended 3) bs) \<and>
   status (extract_buttons_from m bs s) = status s @ concat (map (appended 4) bs) \<and>
   services (extract_buttons_from m bs s) = services s @ concat (map (appended 5) bs) \<and>
   personnel (extract_buttons_from m bs s) = personnel s @ concat (map (appended 6) bs)"
proof (induction bs arbitrary: m s)
  case Nil
  then show ?case by simp
next
  case (Cons b bs)
  let ?s = "log_info ''page:{}, row:{}'' [current_page s, m] s"
  obtain r s' where e: "extract_data b ?s = (r, s')" by (cases "extract_data b ?s")
  from extract_data_appended [of b ?s] e
  have a: "page_rows s' = page_rows s @ appended 0 b"
    "identifiers s' = identifiers s @ appended (Suc 0) b"
    "locations s' = locations s @ appended 2 b"
    "contacts s' = contacts s @ appended 3 b"
    "status s' = status s @ appended 4 b"
    "services s' = services s @ appended 5 b"
    "personnel s' = personnel s @ appended 6 b"
    by simp_all
  show ?case
  proof (cases r)
    case (Inl err)
    from Cons.IH [of m "log_error ''issue extracting data for page:{}, row:{}'' [current_page s', m] s'"]
    show ?thesis by (simp add: e Inl a)
  next
    case (Inr u)
    from Cons.IH [of "m + 1" s'] show ?thesis by (simp add: e Inr a)
  qed
qed

lemma page_rows_data_built:
  assumes "\<forall>name. \<exists>v. get_attribute b name = Inr v"
  shows "page_rows_data b = Inr (built b page_rows_fields)"
proof -
  from assms obtain v where v: "\<And>name. get_attribute b name = Inr (v name)" by metis
  show ?thesis by (simp add: page_rows_data_def built_def page_rows_fields_def v)
qed

lemma identifiers_data_built:
  assumes "\<forall>name. \<exists>v. get_attribute b name = Inr v"
  shows "identifiers_data b = Inr (built b identifiers_fields)"
proof -
  from assms obtain v where v: "\<And>name. get_attribute b name = Inr (v name)" by metis
  show ?thesis by (simp add: identifiers_data_def built_def identifiers_fields_def v)
qed

lemma location_data_built:
  assumes "\<forall>name. \<exists>v. get_attribute b name = Inr v"
  shows "location_data b = Inr (built b location_fields)"
proof -
  from assms obtain v where v: "\<And>name. get_attribute b name = Inr (v name)" by metis
  show ?thesis by (simp add: location_data_def built_def location_fields_def v)
qed

lemma contacts_data_built:
  assumes "\<forall>name. \<exists>v. get_attribute b name = Inr v"
  shows "contacts_data b = Inr (built b contacts_fields)"
proof -
  from assms obtain v where v: "\<And>name. get_attribute b name = Inr (v name)" by metis
  show ?thesis by (simp add: contacts_data_def built_def contacts_fields_def v)
qed

lemma status_data_built:
  assumes "\<forall>name. \<exists>v. get_attribute b name = Inr v"
  shows "status_data b = Inr (built b status_fields)"
proof -
  from assms obtain v where v: "\<And>name. get_attribute b name = Inr (v name)" by metis
  show ?thesis by (simp add: status_data_def built_def status_fields_def v)
qed

lemma services_data_built:
  assumes "\<forall>name. \<exists>v. get_attribute b name = Inr v"
  shows "services_data b = Inr (built b services_fields)"
proof -
  from assms obtain v where v: "\<And>name. get_attribute b name = Inr (v name)" by metis
  show ?thesis by (simp add: services_data_def built_def services_fields_def v)
qed

lemma personnel_data_built:
  assumes "\<forall>name. \<exists>v. get_attribute b name = Inr v"
  shows "personnel_data b = Inr (built b personnel_fields)"
proof -
  from assms obtain v where v: "\<And>name. get_attribute b name = Inr (v name)" by metis
  show ?thesis by (simp add: personnel_data_def built_def personnel_fields_def v)
qed

lemmas data_built = page_rows_data_built identifiers_data_built location_data_built
  contacts_data_built status_data_built services_data_built personnel_data_built

lemma appended_built:
  assumes "\<forall>name. \<exists>v. get_attribute b name = Inr v"
  shows "\<forall>i<7. appended i b = [built b (schema ! i)]"
  by (simp add: all_less_7 appended_simps schema_nth data_built [OF assms])

lemma concat_appended_built:
  assumes "\<forall>b\<in>set bs. \<forall>name. \<exists>v. get_attribute b name = Inr v" and "i < 7"
  shows "concat (map (appended i) bs) = map (\<lambda>b. built b (schema ! i)) bs"
  using assms(1)
proof (induction bs)
  case Nil
  then show ?case by simp
next
  case (Cons b bs)
  from Cons.prems have "\<forall>name. \<exists>v. get_attribute b name = Inr v" by simp
  from appended_built [OF this] assms(2) have "appended i b = [built b (schema ! i)]" by simp
  with Cons show ?case by simp
qed

lemma schema_keys_distinct: "\<forall>table\<in>set schema. distinct (map fst table)"
  by (simp add: schema_def page_rows_fields_def identifiers_fields_def location_fields_def
      contacts_fields_def status_fields_def services_fields_def personnel_fields_def)

lemma built_field:
  assumes "distinct (map fst table)" and "(k, attr) \<in> set table"
  shows "map_of (built b table) k = Some (projr (get_attribute b attr))"
proof (rule map_of_is_SomeI)
  have "map fst (built b table) = map fst table"
    by (simp add: built_def case_prod_unfold comp_def)
  with assms(1) show "distinct (map fst (built b table))" by simp
  from assms(2) show "(k, projr (get_attribute b attr)) \<in> set (built b table)"
    by (force simp: built_def)
qed

lemma fst_extract_data:
  "fst (extract_data b t) =
     (case find (\<lambda>reader. isl (reader b)) data_readers of
        None \<Rightarrow> Inr () | Some reader \<Rightarrow> Inl (projl (reader b)))"
  by (auto simp: extract_data_unfold data_readers_def split: sum.splits)

lemma first_failing_reader:
  assumes "fst (extract_data b t) = Inl e"
  shows "\<exists>k<7. (data_readers ! k) b = Inl e \<and> (\<forall>j<k. \<not> isl ((data_readers ! j) b))"
proof -
  from assms obtain reader where f: "find (\<lambda>reader. isl (reader b)) data_readers = Some reader"
    and e: "e = projl (reader b)"
    by (auto simp: fst_extract_data split: option.splits)
  from f obtain k where k: "k < length data_readers" "isl ((data_readers ! k) b)"
    "reader = data_readers ! k" "\<forall>j<k. \<not> isl ((data_readers ! j) b)"
    unfolding find_Some_iff by blast
  from k(2) e k(3) have "(data_readers ! k) b = Inl e" by (cases "(data_readers ! k) b") simp_all
  moreover from k(1) have "k < 7" by (simp add: data_readers_def)
  ultimately show ?thesis using k(4) by blast
qed

lemma appended_before:
  assumes "\<forall>j<k. \<not> isl ((data_readers ! j) b)" "i < k" "k < 7"
  shows "\<exists>d. (data_readers ! i) b = Inr d \<and> appended i b = [d]"
proof -
  have len: "length data_readers = 7" by (simp add: data_readers_def)
  have "\<not> list_ex (\<lambda>reader. isl (reader b)) (take i data_readers)"
  proof
    assume "list_ex (\<lambda>reader. isl (reader b)) (take i data_readers)"
    then obtain r where "r \<in> set (take i data_readers)" "isl (r b)"
      by (auto simp: list_ex_iff)
    then obtain j where "j < i" "j < length data_readers" "r = data_readers ! j"
      by (auto simp: in_set_conv_nth)
    with assms \<open>isl (r b)\<close> show False by auto
  qed
  moreover from assms obtain d where "(data_readers ! i) b = Inr d"
    by (cases "(data_readers ! i) b") auto
  ultimately show ?thesis by (simp add: appended_def)
qed

lemma appended_from:
  assumes "isl ((data_readers ! k) b)" "k \<le> i" "k < 7"
  shows "appended i b = []"
proof (cases "k = i")
  case True
  with assms(1) show ?thesis by (cases "(data_readers ! i) b") (simp_all add: appended_def)
next
  case False
  with assms have "k < i" by simp
  with assms(3) have "data_readers ! k \<in> set (take i data_readers)"
    by (auto simp: in_set_conv_nth data_readers_def intro!: exI [of _ k])
  with assms(1) have "list_ex (\<lambda>reader. isl (reader b)) (take i data_readers)"
    by (auto simp: list_ex_iff)
  then show ?thesis by (simp add: appended_def)
qed

lemma extract_data_collections:
  "\<forall>i<7. (collections ! i) (snd (extract_data b s)) = (collections ! i) s @ appended i b"
  by (simp add: all_less_7 collections_nth extract_data_appended)

lemma full_data_collections:
  "full_data s = full_data t \<Longrightarrow> \<forall>i<7. (collections ! i) s = (collections ! i) t"
  by (simp add: full_data_eq_iff all_less_7 collections_nth)

lemma MHScrapper_collections: "\<forall>i<7. (collections ! i) (MHScrapper t p sp w) = []"
  by (cases "online w")
    (simp_all add: all_less_7 collections_nth MHScrapper_def Let_def driver_get_def
      log_info_def log_error_def)

lemma view_button_reads: "\<forall>name. \<exists>v. get_attribute (view_button u) name = Inr v"
  by (simp add: get_attribute_def view_button_def)

lemma listing_buttons:
  "listed_buttons listing [1, 2] = [view_button ''1'', view_button ''2'']"
  "[1..2] = [1, 2::int]"
  by (simp_all add: listed_buttons_def listing_pages listing_page_simps upto_rec1)

lemma view_button_status:
  "built (view_button u) status_fields =
     [(''facility_uid'', Some u), (''operation_status'', None),
      (''registration_status'', None), (''license_status'', None)]"
  by (simp add: built_def status_fields_def get_attribute_def view_button_def)

lemma foldl_appended:
  assumes "\<And>bs t. \<forall>i<7. (collections ! i) (f bs t) =
             (collections ! i) t @ concat (map (appended i) bs)"
  shows "\<forall>i<7. (collections ! i) (foldl (\<lambda>a n. f (g n) a) s ns) =
            (collections ! i) s @ concat (map (appended i) (concat (map g ns)))"
proof (induction ns arbitrary: s)
  case Nil
  show ?case by simp
next
  case (Cons n ns)
  from Cons.IH [of "f (g n) s"] assms [of "g n" s] show ?case by simp
qed

lemmas raw_defs = scrape_mh_data_def scrape_iteration_def get_page_table_def
  get_table_body_def get_page_view_buttons_def get_next_page_def find_element_def click_def
  loaded_page_def extract_view_buttons_data_def extract_data_def get_page_rows_def
  get_identifiers_def get_location_def get_contacts_def get_status_def get_services_def
  get_personnel_def page_rows_data_def identifiers_data_def location_data_def
  contacts_data_def status_data_def services_data_def personnel_data_def bind_err_def
  get_attribute_def MHScrapper_def Chrome_def driver_get_def log_info_def log_error_def
  Let_def full_data_def

lemmas example_defs = listing_def listing_page_def blank_page_def view_button_def
  stale_button_def facility_uids_def uid_of_def

section \<open>The claims\<close>

subsection \<open>C1: a row whose extraction fails\<close>

text \<open>
  C1, as stated: when the extraction of one row's action element raises, no record for
  that row is left in any of the seven collections, and the remaining elements of the
  page are still attempted. The first half fails: \<^verbatim>\<open>extract_data\<close> appends to one
  collection after the other, so the extractors that ran before the failing one have
  already appended their record, and nothing removes it.

  C1, as amended: when the extraction of a row raises, the exception is that of the
  first reader that fails, say reader number \<open>k\<close> in the order page_rows, identifiers,
  locations, contacts, status, services, personnel. Each collection before \<open>k\<close> has
  gained the record its reader built for that row, and collection \<open>k\<close> and those after
  it are unchanged; so no record of the row is left exactly when the first reader
  fails. Wherever the failing element stands among the buttons of the page, the elements
  after it are extracted from the state it left: each collection gains what the
  extraction of each later element adds, and a later element whose reads all succeed has
  its seven records, as the tables describe them, in the seven collections.
\<close>

theorem failed_row_keeps_earlier_records:
  assumes "extract_data b (extract_view_buttons_data pre s) = (Inl e, t')"
  shows "(\<exists>k<7. (data_readers ! k) b = Inl e \<and>
            (\<forall>i<7. (i < k \<longrightarrow>
                       (\<exists>d. (data_readers ! i) b = Inr d \<and>
                            (collections ! i) t' =
                              (collections ! i) (extract_view_buttons_data pre s) @ [d])) \<and>
                    (k \<le> i \<longrightarrow>
                       (collections ! i) t' =
                         (collections ! i) (extract_view_buttons_data pre s)))) \<and>
         (full_data t' = full_data (extract_view_buttons_data pre s) \<longleftrightarrow>
            isl (page_rows_data b)) \<and>
         full_data (extract_view_buttons_data (pre @ b # post) s) =
           full_data (extract_view_buttons_data post t') \<and>
         (\<forall>i<7. (collections ! i) (extract_view_buttons_data (pre @ b # post) s) =
                   (collections ! i) t' @ concat (map (appended i) post)) \<and>
         (\<forall>g\<in>set post. (\<forall>name. \<exists>v. get_attribute g name = Inr v) \<longrightarrow>
            (\<forall>i<7. built g (schema ! i) \<in>
                      set ((collections ! i) (extract_view_buttons_data (pre @ b # post) s))))"
proof -
  let ?t = "extract_view_buttons_data pre s"
  from assms have f: "fst (extract_data b ?t) = Inl e" and t': "snd (extract_data b ?t) = t'"
    by simp_all
  from first_failing_reader [OF f] obtain k where k: "k < 7" "(data_readers ! k) b = Inl e"
    "\<forall>j<k. \<not> isl ((data_readers ! j) b)"
    by blast
  from extract_data_collections [of b ?t] t'
  have col: "\<forall>i<7. (collections ! i) t' = (collections ! i) ?t @ appended i b" by simp
  have 1: "\<forall>i<7. (i < k \<longrightarrow>
                (\<exists>d. (data_readers ! i) b = Inr d \<and>
                     (collections ! i) t' = (collections ! i) ?t @ [d])) \<and>
             (k \<le> i \<longrightarrow> (collections ! i) t' = (collections ! i) ?t)"
  proof (intro allI impI conjI)
    fix i :: nat
    assume i: "i < 7" "i < k"
    from appended_before [OF k(3) i(2) k(1)] obtain d
      where "(data_readers ! i) b = Inr d" "appended i b = [d]" by blast
    with col i(1) show "\<exists>d. (data_readers ! i) b = Inr d \<and>
        (collections ! i) t' = (collections ! i) ?t @ [d]" by simp
  next
    fix i :: nat
    assume i: "i < 7" "k \<le> i"
    from k(2) have "isl ((data_readers ! k) b)" by simp
    from appended_from [OF this i(2) k(1)] col i(1)
    show "(collections ! i) t' = (collections ! i) ?t" by simp
  qed
  have 2: "full_data t' = full_data ?t \<longleftrightarrow> isl (page_rows_data b)"
  proof
    assume "full_data t' = full_data ?t"
    then have pr: "page_rows t' = page_rows ?t" by (simp add: full_data_eq_iff)
    show "isl (page_rows_data b)"
    proof (cases "page_rows_data b")
      case (Inl x)
      then show ?thesis by simp
    next
      case (Inr d)
      then have "page_rows (snd (extract_data b ?t)) = page_rows ?t @ [d]"
        by (simp add: extract_data_def get_page_rows_def get_identifiers_def
            get_location_def get_contacts_def get_status_def get_services_def
            get_personnel_def bind_err_def split: sum.splits)
      with t' pr show ?thesis by simp
    qed
  next
    assume "isl (page_rows_data b)"
    then have "isl ((data_readers ! 0) b)" by (simp add: data_readers_nth)
    from appended_from [OF this] have "\<forall>i<7. appended i b = []" by simp
    with col have "\<forall>i<7. (collections ! i) t' = (collections ! i) ?t" by simp
    then show "full_data t' = full_data ?t"
      by (simp add: full_data_eq_iff all_less_7 collections_nth)
  qed
  have 3: "full_data (extract_view_buttons_data (pre @ b # post) s) =
           full_data (extract_view_buttons_data post t')"
    using extract_view_buttons_data_split [of pre b post s] assms by simp
  have ev: "\<forall>i<7. (collections ! i) (extract_view_buttons_data bs t) =
      (collections ! i) t @ concat (map (appended i) bs)" for bs t
    using extract_buttons_from_appended [of 1 bs t]
    by (simp add: all_less_7 collections_nth extract_view_buttons_data_def)
  have 4: "\<forall>i<7. (collections ! i) (extract_view_buttons_data (pre @ b # post) s) =
                   (collections ! i) t' @ concat (map (appended i) post)"
    using ev [of "pre @ b # post" s] ev [of pre s] col by simp
  have 5: "\<forall>g\<in>set post. (\<forall>name. \<exists>v. get_attribute g name = Inr v) \<longrightarrow>
            (\<forall>i<7. built g (schema ! i) \<in>
                      set ((collections ! i) (extract_view_buttons_data (pre @ b # post) s)))"
  proof (intro ballI impI allI)
    fix g and i :: nat
    assume g: "g \<in> set post" "\<forall>name. \<exists>v. get_attribute g name = Inr v" and i: "i < 7"
    from appended_built [OF g(2)] i have "appended i g = [built g (schema ! i)]" by simp
    with g(1) have "built g (schema ! i) \<in> set (concat (map (appended i) post))" by force
    with 4 i show "built g (schema ! i) \<in>
        set ((collections ! i) (extract_view_buttons_data (pre @ b # post) s))" by simp
  qed
  from k(1,2) 1 have "\<exists>k<7. (data_readers ! k) b = Inl e \<and>
            (\<forall>i<7. (i < k \<longrightarrow>
                       (\<exists>d. (data_readers ! i) b = Inr d \<and>
                            (collections ! i) t' = (collections ! i) ?t @ [d])) \<and>
                    (k \<le> i \<longrightarrow> (collections ! i) t' = (collections ! i) ?t))"
    by blast
  with 2 3 4 5 show ?thesis by blast
qed

text \<open>
  The amended claim at a page of two buttons, the first of which raises when
  \<^verbatim>\<open>data-registration_no\<close> is read (in \<^verbatim>\<open>get_identifiers\<close>, reader number 1): its
  record stays in \<open>page_rows\<close> only, and the second button has its record in every
  collection.
\<close>

theorem failed_row_keeps_earlier_records_witness:
  "extract_data stale_button (extract_view_buttons_data [] (MHScrapper True 1 None listing))
     = (Inl WebDriverException,
        snd (extract_data stale_button
               (extract_view_buttons_data [] (MHScrapper True 1 None listing)))) \<and>
   (data_readers ! 1) stale_button = Inl WebDriverException \<and>
   facility_uids (full_data (snd (extract_data stale_button
       (extract_view_buttons_data [] (MHScrapper True 1 None listing)))))
     = [(''page_rows'', [''2'']), (''identifiers'', []), (''locations'', []),
        (''contacts'', []), (''status'', []), (''services'', []), (''personnel'', [])] \<and>
   built (view_button ''7'') (schema ! 4) \<in>
     set ((collections ! 4) (extract_view_buttons_data ([] @ stale_button # [view_button ''7''])
            (MHScrapper True 1 None listing))) \<and>
   built (view_button ''7'') (schema ! 4) =
     [(''facility_uid'', Some ''7''), (''operation_status'', None),
      (''registration_status'', None), (''license_status'', None)] \<and>
   status (extract_view_buttons_data ([] @ stale_button # [view_button ''7''])
             (MHScrapper True 1 None listing)) =
     [[(''facility_uid'', Some ''7''), (''operation_status'', None),
       (''registration_status'', None), (''license_status'', None)]]"
proof -
  let ?s = "MHScrapper True 1 None listing"
  have raw: "status (extract_view_buttons_data ([] @ stale_button # [view_button ''7'']) ?s) =
     [[(''facility_uid'', Some ''7''), (''operation_status'', None),
       (''registration_status'', None), (''license_status'', None)]]"
    by (simp add: raw_defs example_defs)
  have e: "extract_data stale_button (extract_view_buttons_data [] ?s)
     = (Inl WebDriverException, snd (extract_data stale_button (extract_view_buttons_data [] ?s)))"
    by (simp add: raw_defs example_defs)
  have r: "(data_readers ! 1) stale_button = Inl WebDriverException"
    by (simp add: data_readers_def raw_defs example_defs)
  have u: "facility_uids (full_data (snd (extract_data stale_button
       (extract_view_buttons_data [] ?s))))
     = [(''page_rows'', [''2'']), (''identifiers'', []), (''locations'', []),
        (''contacts'', []), (''status'', []), (''services'', []), (''personnel'', [])]"
    by (simp add: raw_defs example_defs)
  from failed_row_keeps_earlier_records [OF e, of "[view_button ''7'']"]
  have "\<forall>g\<in>set [view_button ''7'']. (\<forall>name. \<exists>v. get_attribute g name = Inr v) \<longrightarrow>
      (\<forall>i<7. built g (schema ! i) \<in> set ((collections ! i)
         (extract_view_buttons_data ([] @ stale_button # [view_button ''7'']) ?s)))"
    by blast
  with view_button_reads [of "''7''"]
  have m: "built (view_button ''7'') (schema ! 4) \<in> set ((collections ! 4)
      (extract_view_buttons_data ([] @ stale_button # [view_button ''7'']) ?s))"
    by simp
  have "built (view_button ''7'') (schema ! 4) =
     [(''facility_uid'', Some ''7''), (''operation_status'', None),
      (''registration_status'', None), (''license_status'', None)]"
    by (simp add: schema_nth view_button_status)
  with e r u m raw show ?thesis by blast
qed

text \<open>
  The claim as stated fails on that page: the row of the failing button (facility 2) is
  left in \<open>page_rows\<close> and in no other collection.
\<close>

theorem failed_row_counterexample:
  "facility_uids (full_data
      (extract_view_buttons_data [stale_button, view_button ''7'']
         (MHScrapper True 1 None listing)))
   = [(''page_rows'', [''2'', ''7'']), (''identifiers'', [''7'']), (''locations'', [''7'']),
      (''contacts'', [''7'']), (''status'', [''7'']), (''services'', [''7'']),
      (''personnel'', [''7''])]"
  by (simp add: raw_defs example_defs)

subsection \<open>C2: one facility_uid per extraction step\<close>

text \<open>
  C2: the records that one call of \<^verbatim>\<open>extract_data\<close> appends to the seven collections
  all carry the value of the \<^verbatim>\<open>data-id\<close> attribute of the element as their
  \<^verbatim>\<open>facility_uid\<close> (\<open>None\<close>, the absent marker, when the element has no such
  attribute). Each collection receives at most one record, and exactly one when the
  extraction succeeds.
\<close>

theorem facility_uid_shared:
  "extract_data b s = (r, s') \<Longrightarrow>
   \<forall>c\<in>set collections. \<exists>new. c s' = c s @ new \<and> length new \<le> 1 \<and>
     (r = Inr () \<longrightarrow> length new = 1) \<and>
     (\<forall>d\<in>set new. \<exists>uid. get_attribute b ''data-id'' = Inr uid \<and>
         map_of d ''facility_uid'' = Some uid)"
  by (auto simp: extract_data_unfold collections_def split: sum.splits
      dest: page_rows_data_uid identifiers_data_uid location_data_uid contacts_data_uid
        status_data_uid services_data_uid personnel_data_uid)

theorem facility_uid_shared_witness:
  "extract_data (view_button ''17'') (MHScrapper True 1 None listing)
     = (Inr (), snd (extract_data (view_button ''17'') (MHScrapper True 1 None listing))) \<and>
   facility_uids (full_data (snd (extract_data (view_button ''17'') (MHScrapper True 1 None listing))))
     = [(''page_rows'', [''17'']), (''identifiers'', [''17'']), (''locations'', [''17'']),
        (''contacts'', [''17'']), (''status'', [''17'']), (''services'', [''17'']),
        (''personnel'', [''17''])] \<and>
   (\<exists>new.
      personnel (snd (extract_data (view_button ''17'') (MHScrapper True 1 None listing)))
        = personnel (MHScrapper True 1 None listing) @ new \<and> length new = 1 \<and>
      (\<forall>d\<in>set new. \<exists>uid. get_attribute (view_button ''17'') ''data-id'' = Inr uid \<and>
          map_of d ''facility_uid'' = Some uid))"
proof -
  have e: "extract_data (view_button ''17'') (MHScrapper True 1 None listing)
     = (Inr (), snd (extract_data (view_button ''17'') (MHScrapper True 1 None listing)))"
    by (simp add: extract_data_unfold page_rows_data_def identifiers_data_def location_data_def
      contacts_data_def status_data_def services_data_def personnel_data_def
      get_attribute_def view_button_def)
  have u: "facility_uids (full_data (snd (extract_data (view_button ''17'') (MHScrapper True 1 None listing))))
     = [(''page_rows'', [''17'']), (''identifiers'', [''17'']), (''locations'', [''17'']),
        (''contacts'', [''17'']), (''status'', [''17'']), (''services'', [''17'']),
        (''personnel'', [''17''])]"
    by (simp add: facility_uids_def uid_of_def full_data_def
      extract_data_unfold page_rows_data_def identifiers_data_def location_data_def
      contacts_data_def status_data_def services_data_def personnel_data_def
      get_attribute_def view_button_def MHScrapper_def Let_def
      driver_get_def Chrome_def listing_def log_info_def)
  have "personnel \<in> set collections" by (simp add: collections_def)
  with facility_uid_shared [OF e]
  have "\<exists>new.
      personnel (snd (extract_data (view_button ''17'') (MHScrapper True 1 None listing)))
        = personnel (MHScrapper True 1 None listing) @ new \<and> length new = 1 \<and>
      (\<forall>d\<in>set new. \<exists>uid. get_attribute (view_button ''17'') ''data-id'' = Inr uid \<and>
          map_of d ''facility_uid'' = Some uid)"
    by blast
  with e u show ?thesis by blast
qed

subsection \<open>C3: test mode from page 1\<close>

text \<open>
  C3, as stated: in test mode with start page 1, on a listing of at least two pages and
  without iteration failures, the run processes exactly pages 1 and 2 and then
  terminates. The stop-page check of the loop is not restricted to the full mode, so the
  statement fails when the stop page is 1: the run then ends after page 1.

  C3, as amended: in test mode with start page 1 and a stop page that is not 1 (none, or
  any other number), on a site that can be reached, whose page 1 has the table and a next
  link that can be clicked and whose page 2 has the table, the run terminates and returns
  the records of the view buttons of page 1 followed by those of page 2; the page counter
  and the browser end on page 2. Each collection holds what the extraction of each of
  these buttons adds, in order, and nothing else; when no attribute read of these buttons
  raises, that is one record per button, as the table of the collection describes it.
\<close>

theorem test_mode_two_pages:
  assumes "online w" "table_found (pages w 1)" "next_clickable (pages w 1)"
    "table_found (pages w 2)" "sp \<noteq> Some 1"
  shows "\<exists>s'. scrape_mh_data (MHScrapper True 1 sp w) = Some (full_data s', s') \<and>
           full_data s' = full_data (extract_pages w [1, 2] (MHScrapper True 1 sp w)) \<and>
           current_page s' = 2 \<and> driver s' = \<lparr>site = w, location = Some 2\<rparr> \<and>
           (\<forall>i<7. (collections ! i) s' =
                     concat (map (appended i) (listed_buttons w [1, 2]))) \<and>
           ((\<forall>b\<in>set (listed_buttons w [1, 2]). \<forall>name. \<exists>v. get_attribute b name = Inr v) \<longrightarrow>
              (\<forall>i<7. (collections ! i) s' =
                        map (\<lambda>b. built b (schema ! i)) (listed_buttons w [1, 2])))"
proof -
  let ?s = "MHScrapper True 1 sp w"
  note init = MHScrapper_online [OF assms(1), of True 1 sp]
  have "\<exists>s'. scrape_loop ?s = Some s' \<and>
           full_data s' = full_data (extract_pages (site (driver ?s)) [1, 2] ?s) \<and>
           current_page s' = 2 \<and> driver s' = (driver ?s)\<lparr>location := Some 2\<rparr>"
    using assms by (intro test_run_two_pages) (simp_all add: init)
  then obtain s' where run: "scrape_loop ?s = Some s'"
    and fd: "full_data s' = full_data (extract_pages w [1, 2] ?s)"
    and cp: "current_page s' = 2" and dr: "driver s' = \<lparr>site = w, location = Some 2\<rparr>"
    by (auto simp: init)
  have ev: "\<forall>i<7. (collections ! i) (extract_view_buttons_data bs t) =
      (collections ! i) t @ concat (map (appended i) bs)" for bs t
    using extract_buttons_from_appended [of 1 bs t]
    by (simp add: all_less_7 collections_nth extract_view_buttons_data_def)
  have c1: "\<forall>i<7. (collections ! i) s' = concat (map (appended i) (listed_buttons w [1, 2]))"
    using foldl_appended [of extract_view_buttons_data "\<lambda>n. view_buttons_of (pages w n)" ?s "[1, 2]",
        OF ev]
      full_data_collections [OF fd] MHScrapper_collections [of True 1 sp w]
    by (simp add: extract_pages_def listed_buttons_def)
  have c2: "(\<forall>b\<in>set (listed_buttons w [1, 2]). \<forall>name. \<exists>v. get_attribute b name = Inr v) \<longrightarrow>
      (\<forall>i<7. (collections ! i) s' = map (\<lambda>b. built b (schema ! i)) (listed_buttons w [1, 2]))"
    using c1 concat_appended_built [of "listed_buttons w [1, 2]"] by simp
  from scrape_mh_data_Some [OF run] fd cp dr c1 c2 show ?thesis by blast
qed

theorem test_mode_two_pages_witness:
  "online listing \<and> table_found (pages listing 1) \<and> next_clickable (pages listing 1) \<and>
   table_found (pages listing 2) \<and> (None :: int option) \<noteq> Some 1 \<and>
   (\<exists>s'. scrape_mh_data (MHScrapper True 1 None listing) = Some (full_data s', s') \<and>
          full_data s' = full_data (extract_pages listing [1, 2] (MHScrapper True 1 None listing)) \<and>
          current_page s' = 2 \<and> driver s' = \<lparr>site = listing, location = Some 2\<rparr> \<and>
          status s' =
            [[(''facility_uid'', Some ''1''), (''operation_status'', None),
              (''registration_status'', None), (''license_status'', None)],
             [(''facility_uid'', Some ''2''), (''operation_status'', None),
              (''registration_status'', None), (''license_status'', None)]]) \<and>
   map_option (facility_uids \<circ> fst) (scrape_mh_data (MHScrapper True 1 None listing))
     = Some [(''page_rows'', [''1'', ''2'']), (''identifiers'', [''1'', ''2'']),
             (''locations'', [''1'', ''2'']), (''contacts'', [''1'', ''2'']),
             (''status'', [''1'', ''2'']), (''services'', [''1'', ''2'']),
             (''personnel'', [''1'', ''2''])]"
proof -
  have h: "online listing" "table_found (pages listing 1)" "next_clickable (pages listing 1)"
    "table_found (pages listing 2)" "(None :: int option) \<noteq> Some 1"
    by (simp_all add: listing_pages listing_page_simps)
  have run: "map_option (facility_uids \<circ> fst) (scrape_mh_data (MHScrapper True 1 None listing))
     = Some [(''page_rows'', [''1'', ''2'']), (''identifiers'', [''1'', ''2'']),
             (''locations'', [''1'', ''2'']), (''contacts'', [''1'', ''2'']),
             (''status'', [''1'', ''2'']), (''services'', [''1'', ''2'']),
             (''personnel'', [''1'', ''2''])]"
    apply (simp add: scrape_mh_data_def)
    apply (subst scrape_loop.simps)
    apply (simp add: raw_defs example_defs)
    apply (subst scrape_loop.simps)
    apply (simp add: raw_defs example_defs)
    done
  from test_mode_two_pages [OF h] obtain s' where
    s': "scrape_mh_data (MHScrapper True 1 None listing) = Some (full_data s', s')"
      "full_data s' = full_data (extract_pages listing [1, 2] (MHScrapper True 1 None listing))"
      "current_page s' = 2" "driver s' = \<lparr>site = listing, location = Some 2\<rparr>"
    and b: "(\<forall>b\<in>set (listed_buttons listing [1, 2]). \<forall>name. \<exists>v. get_attribute b name = Inr v) \<longrightarrow>
      (\<forall>i<7. (collections ! i) s' = map (\<lambda>b. built b (schema ! i)) (listed_buttons listing [1, 2]))"
    by blast
  from b have "(collections ! 4) s' = map (\<lambda>b. built b (schema ! 4)) (listed_buttons listing [1, 2])"
    by (simp add: listing_buttons view_button_reads)
  then have "status s' =
            [[(''facility_uid'', Some ''1''), (''operation_status'', None),
              (''registration_status'', None), (''license_status'', None)],
             [(''facility_uid'', Some ''2''), (''operation_status'', None),
              (''registration_status'', None), (''license_status'', None)]]"
    by (simp add: collections_nth schema_nth listing_buttons view_button_status)
  with h s' run show ?thesis by blast
qed

text \<open>
  The claim as stated fails with stop page 1: the run on the three-page listing returns
  the record of facility 1 only.
\<close>

theorem test_mode_two_pages_counterexample:
  "map_option (facility_uids \<circ> fst) (scrape_mh_data (MHScrapper True 1 (Some 1) listing))
   = Some [(''page_rows'', [''1'']), (''identifiers'', [''1'']), (''locations'', [''1'']),
           (''contacts'', [''1'']), (''status'', [''1'']), (''services'', [''1'']),
           (''personnel'', [''1''])]"
proof -
  let ?s = "MHScrapper True 1 (Some 1) listing"
  note init = MHScrapper_online [of listing True 1 "Some 1", OF listing_pages(4)]
  have h: "hosp (loaded_page (driver ?s)) = Some (Table (Some (TBody [view_button ''1''])))"
    by (simp add: init loaded_page_def listing_pages listing_page_simps)
  have "(test ?s \<and> current_page ?s mod 3 = 2) \<or> stop_page ?s = Some (current_page ?s)"
    by (simp add: init)
  from run_stops [OF h this] obtain s' where run: "scrape_loop ?s = Some s'"
    and fd: "full_data s' = full_data (extract_view_buttons_data [view_button ''1''] ?s)"
    by blast
  have "facility_uids (full_data s') =
      [(''page_rows'', [''1'']), (''identifiers'', [''1'']), (''locations'', [''1'']),
       (''contacts'', [''1'']), (''status'', [''1'']), (''services'', [''1'']),
       (''personnel'', [''1''])]"
    unfolding fd view_button_uids by (simp add: init facility_uids_def)
  with scrape_mh_data_Some [OF run] show ?thesis by simp
qed

subsection \<open>C4: a run bounded by a stop page\<close>

text \<open>
  C4: in the full mode with a stop page \<open>S\<close> greater than the start page \<open>P\<close>, on a
  site that can be reached, whose pages \<open>P\<close> to \<open>S\<close> have the table and whose pages
  \<open>P\<close> to \<open>S - 1\<close> have a next link that can be clicked, the run terminates and returns
  the records of the view buttons of the pages \<open>P\<close> to \<open>S\<close>, in that order; the page
  counter and the browser end on page \<open>S\<close>, so page \<open>S + 1\<close> is never loaded. Each
  collection holds what the extraction of each of these buttons adds, in order, and
  nothing else; when no attribute read of these buttons raises, that is one record per
  button, as the table of the collection describes it.
\<close>

theorem bounded_run:
  assumes "P < S" "online w" "\<forall>n\<in>{P..S}. table_found (pages w n)"
    "\<forall>n\<in>{P..<S}. next_clickable (pages w n)"
  shows "\<exists>s'. scrape_mh_data (MHScrapper False P (Some S) w) = Some (full_data s', s') \<and>
           full_data s' = full_data (extract_pages w [P..S] (MHScrapper False P (Some S) w)) \<and>
           current_page s' = S \<and> driver s' = \<lparr>site = w, location = Some S\<rparr> \<and>
           (\<forall>i<7. (collections ! i) s' =
                     concat (map (appended i) (listed_buttons w [P..S]))) \<and>
           ((\<forall>b\<in>set (listed_buttons w [P..S]). \<forall>name. \<exists>v. get_attribute b name = Inr v) \<longrightarrow>
              (\<forall>i<7. (collections ! i) s' =
                        map (\<lambda>b. built b (schema ! i)) (listed_buttons w [P..S])))"
proof -
  let ?s = "MHScrapper False P (Some S) w"
  note init = MHScrapper_online [OF assms(2), of False P "Some S"]
  have "\<exists>s'. scrape_loop ?s = Some s' \<and>
           full_data s' = full_data (extract_pages (site (driver ?s)) [current_page ?s..S] ?s) \<and>
           current_page s' = S \<and> driver s' = (driver ?s)\<lparr>location := Some S\<rparr>"
    using assms by (intro run_to_stop_page [OF refl]) (simp_all add: init)
  then obtain s' where run: "scrape_loop ?s = Some s'"
    and fd: "full_data s' = full_data (extract_pages w [P..S] ?s)"
    and cp: "current_page s' = S" and dr: "driver s' = \<lparr>site = w, location = Some S\<rparr>"
    by (auto simp: init)
  have ev: "\<forall>i<7. (collections ! i) (extract_view_buttons_data bs t) =
      (collections ! i) t @ concat (map (appended i) bs)" for bs t
    using extract_buttons_from_appended [of 1 bs t]
    by (simp add: all_less_7 collections_nth extract_view_buttons_data_def)
  have c1: "\<forall>i<7. (collections ! i) s' = concat (map (appended i) (listed_buttons w [P..S]))"
    using foldl_appended [of extract_view_buttons_data "\<lambda>n. view_buttons_of (pages w n)" ?s "[P..S]",
        OF ev]
      full_data_collections [OF fd] MHScrapper_collections [of False P "Some S" w]
    by (simp add: extract_pages_def listed_buttons_def)
  have c2: "(\<forall>b\<in>set (listed_buttons w [P..S]). \<forall>name. \<exists>v. get_attribute b name = Inr v) \<longrightarrow>
      (\<forall>i<7. (collections ! i) s' = map (\<lambda>b. built b (schema ! i)) (listed_buttons w [P..S]))"
    using c1 concat_appended_built [of "listed_buttons w [P..S]"] by simp
  from scrape_mh_data_Some [OF run] fd cp dr c1 c2 show ?thesis by blast
qed

text \<open>
  The run from page 1 to stop page 2 on the three-page listing: the bundle holds the
  records of facilities 1 and 2, in that order, and none of facility 3.
\<close>

theorem bounded_run_witness:
  "(1::int) < 2 \<and> online listing \<and> table_found (pages listing 1) \<and>
   table_found (pages listing 2) \<and> next_clickable (pages listing 1) \<and>
   (\<exists>s'. scrape_mh_data (MHScrapper False 1 (Some 2) listing) = Some (full_data s', s') \<and>
          current_page s' = 2 \<and> driver s' = \<lparr>site = listing, location = Some 2\<rparr> \<and>
          status s' =
            [[(''facility_uid'', Some ''1''), (''operation_status'', None),
              (''registration_status'', None), (''license_status'', None)],
             [(''facility_uid'', Some ''2''), (''operation_status'', None),
              (''registration_status'', None), (''license_status'', None)]] \<and>
          facility_uids (full_data s') =
            [(''page_rows'', [''1'', ''2'']), (''identifiers'', [''1'', ''2'']),
             (''locations'', [''1'', ''2'']), (''contacts'', [''1'', ''2'']),
             (''status'', [''1'', ''2'']), (''services'', [''1'', ''2'']),
             (''personnel'', [''1'', ''2''])]) \<and>
   map_option (status \<circ> snd) (scrape_mh_data (MHScrapper False 1 (Some 2) listing))
     = Some [[(''facility_uid'', Some ''1''), (''operation_status'', None),
              (''registration_status'', None), (''license_status'', None)],
             [(''facility_uid'', Some ''2''), (''operation_status'', None),
              (''registration_status'', None), (''license_status'', None)]]"
proof -
  have run: "map_option (status \<circ> snd) (scrape_mh_data (MHScrapper False 1 (Some 2) listing))
     = Some [[(''facility_uid'', Some ''1''), (''operation_status'', None),
              (''registration_status'', None), (''license_status'', None)],
             [(''facility_uid'', Some ''2''), (''operation_status'', None),
              (''registration_status'', None), (''license_status'', None)]]"
    apply (simp add: scrape_mh_data_def)
    apply (subst scrape_loop.simps)
    apply (simp add: raw_defs example_defs)
    apply (subst scrape_loop.simps)
    apply (simp add: raw_defs example_defs)
    done
  have h: "(1::int) < 2" "online listing" "\<forall>n\<in>{1..2}. table_found (pages listing n)"
    "\<forall>n\<in>{1..<2}. next_clickable (pages listing n)"
    by (auto simp: listing_def listing_page_simps)
  have p: "table_found (pages listing 1)" "table_found (pages listing 2)"
    "next_clickable (pages listing 1)"
    by (simp_all add: listing_pages listing_page_simps)
  from bounded_run [OF h] obtain s' where
    s': "scrape_mh_data (MHScrapper False 1 (Some 2) listing) = Some (full_data s', s')"
      "current_page s' = 2" "driver s' = \<lparr>site = listing, location = Some 2\<rparr>"
    and fd: "full_data s' =
      full_data (extract_pages listing [1..2] (MHScrapper False 1 (Some 2) listing))"
    and b: "(\<forall>b\<in>set (listed_buttons listing [1..2]). \<forall>name. \<exists>v. get_attribute b name = Inr v) \<longrightarrow>
      (\<forall>i<7. (collections ! i) s' = map (\<lambda>b. built b (schema ! i)) (listed_buttons listing [1..2]))"
    by blast
  from b have "(collections ! 4) s' = map (\<lambda>b. built b (schema ! 4)) (listed_buttons listing [1, 2])"
    by (simp add: listing_buttons view_button_reads)
  then have st: "status s' =
            [[(''facility_uid'', Some ''1''), (''operation_status'', None),
              (''registration_status'', None), (''license_status'', None)],
             [(''facility_uid'', Some ''2''), (''operation_status'', None),
              (''registration_status'', None), (''license_status'', None)]]"
    by (simp add: collections_nth schema_nth listing_buttons view_button_status)
  have "facility_uids (full_data s') =
            [(''page_rows'', [''1'', ''2'']), (''identifiers'', [''1'', ''2'']),
             (''locations'', [''1'', ''2'']), (''contacts'', [''1'', ''2'']),
             (''status'', [''1'', ''2'']), (''services'', [''1'', ''2'']),
             (''personnel'', [''1'', ''2''])]"
    unfolding fd
    by (simp add: listing_buttons listing_pages listing_page_simps view_button_uids
        MHScrapper_uids [OF listing_pages(4)])
  with h(1,2) p s' st run show ?thesis by blast
qed

subsection \<open>C5: the run and the exceptions of its iterations\<close>

text \<open>
  C5, as stated: \<^verbatim>\<open>scrape_mh_data\<close> never propagates an exception; it always
  completes and returns the bundle of the records collected so far, even when the
  navigation, the table lookup or a row extraction fail. The handler of the loop catches
  every exception of an iteration, but it then starts the next iteration from the same
  page state, so the run does not always complete.

  C5, as amended: \<^verbatim>\<open>scrape_mh_data\<close> never propagates an exception: an exception of
  an iteration is logged and the run goes on with the next iteration from the state
  reached. When the run completes it returns the bundle of its final state, in which
  every collection extends what it held at the start. The run does not complete while
  the table lookup fails on the loaded page, in particular after a navigation that
  failed at start-up: the same page state is retried without end.
\<close>

theorem exceptions_swallowed_run_may_not_return:
  "(\<forall>e s1. scrape_iteration s = (Inl e, s1) \<longrightarrow>
      scrape_mh_data s =
        scrape_mh_data (log_error ''An error occurred while scraping the data'' [] s1)) \<and>
   (\<forall>r. scrape_mh_data s = Some r \<longrightarrow> fst r = full_data (snd r) \<and> grows s (snd r)) \<and>
   (hosp (loaded_page (driver s)) = None \<longrightarrow> scrape_mh_data s = None) \<and>
   (\<not> online w \<longrightarrow> scrape_mh_data (MHScrapper t p sp w) = None)"
proof (intro conjI allI impI)
  fix e s1
  assume "scrape_iteration s = (Inl e, s1)"
  from scrape_loop_raise [OF this]
  show "scrape_mh_data s =
      scrape_mh_data (log_error ''An error occurred while scraping the data'' [] s1)"
    by (simp add: scrape_mh_data_def)
next
  fix r
  assume "scrape_mh_data s = Some r"
  from scrape_mh_data_SomeD [OF this]
  have run: "scrape_loop s = Some (snd r)" and fd: "fst r = full_data (snd r)" by simp_all
  from fd show "fst r = full_data (snd r)" .
  from run show "grows s (snd r)" by (rule scrape_loop_grows)
next
  assume "hosp (loaded_page (driver s)) = None"
  then show "scrape_mh_data s = None"
    by (intro scrape_mh_data_None no_table_diverges)
next
  assume "\<not> online w"
  then have "hosp (loaded_page (driver (MHScrapper t p sp w))) = None"
    by (simp add: MHScrapper_offline loaded_page_def blank_page_def)
  then show "scrape_mh_data (MHScrapper t p sp w) = None"
    by (intro scrape_mh_data_None no_table_diverges)
qed

text \<open>
  The amended claim on the three-page listing: the run in the full mode with stop page 2
  returns, and the run on the site that cannot be reached does not.
\<close>

theorem exceptions_swallowed_run_may_not_return_witness:
  "scrape_mh_data (MHScrapper False 1 (Some 2) listing) \<noteq> None \<and>
   fst (the (scrape_mh_data (MHScrapper False 1 (Some 2) listing)))
     = full_data (snd (the (scrape_mh_data (MHScrapper False 1 (Some 2) listing)))) \<and>
   grows (MHScrapper False 1 (Some 2) listing)
     (snd (the (scrape_mh_data (MHScrapper False 1 (Some 2) listing)))) \<and>
   \<not> online offline \<and> scrape_mh_data (MHScrapper True 1 None offline) = None"
proof -
  let ?s = "MHScrapper False 1 (Some 2) listing"
  note init = MHScrapper_online [of listing False 1 "Some 2", OF listing_pages(4)]
  have "\<exists>s'. scrape_loop ?s = Some s' \<and>
           full_data s' = full_data (extract_pages (site (driver ?s)) [current_page ?s..2] ?s) \<and>
           current_page s' = 2 \<and> driver s' = (driver ?s)\<lparr>location := Some 2\<rparr>"
    by (intro run_to_stop_page [OF refl]) (simp_all add: init listing_ranges)
  then obtain s' where run: "scrape_loop ?s = Some s'" by blast
  then have r: "scrape_mh_data ?s = Some (the (scrape_mh_data ?s))"
    by (simp add: scrape_mh_data_def)
  have ne: "scrape_mh_data ?s \<noteq> None"
    using scrape_mh_data_Some [OF run] by simp
  have off: "\<not> online offline" by (simp add: listing_pages)
  note T = exceptions_swallowed_run_may_not_return [of ?s offline True 1 None]
  from T r have "fst (the (scrape_mh_data ?s)) = full_data (snd (the (scrape_mh_data ?s))) \<and>
      grows ?s (snd (the (scrape_mh_data ?s)))"
    by blast
  moreover from T off have "scrape_mh_data (MHScrapper True 1 None offline) = None" by blast
  ultimately show ?thesis using off ne by blast
qed

text \<open>
  The claim as stated fails on the site that cannot be reached: the navigation fails in
  the constructor, no table is found on the blank page, and the run never returns.
\<close>

theorem run_may_not_return_counterexample:
  "scrape_mh_data (MHScrapper True 1 None offline) = None"
proof -
  have "hosp (loaded_page (driver (MHScrapper True 1 None offline))) = None"
    by (simp add: MHScrapper_offline listing_pages loaded_page_def blank_page_def)
  then show ?thesis by (intro scrape_mh_data_None no_table_diverges)
qed

subsection \<open>C6: the page-advance step\<close>

text \<open>
  C6: at the page-advance step, with the pagination container on the loaded page: when
  the container has no next link, \<^verbatim>\<open>get_next_page\<close> answers \<open>False\<close> without an
  exception and leaves the page counter and the browser as they are, and an iteration
  that reaches this step ends the run, which returns the records collected; when the
  container has a next link that can be clicked, the link is clicked (the browser moves
  to the following page) and the page counter grows by exactly one.
\<close>

theorem page_advance_step:
  assumes "pagination (loaded_page (driver s)) = Some (Pagination l)"
  shows "(l = None \<longrightarrow>
            get_next_page s = (Inr False, log_info ''End of Health Ministry data pages'' [] s) \<and>
            current_page (snd (get_next_page s)) = current_page s \<and>
            driver (snd (get_next_page s)) = driver s) \<and>
         (l = None \<and> hosp (loaded_page (driver s)) = Some (Table (Some (TBody bs))) \<and>
          \<not> (test s \<and> current_page s mod 3 = 2) \<and> stop_page s \<noteq> Some (current_page s) \<longrightarrow>
            (\<exists>s'. scrape_mh_data s = Some (full_data s', s') \<and>
                   full_data s' = full_data (extract_view_buttons_data bs s) \<and>
                   current_page s' = current_page s \<and> driver s' = driver s)) \<and>
         (l = Some (Link None) \<longrightarrow>
            get_next_page s =
              (Inr True,
               s\<lparr>driver := (driver s)\<lparr>location := map_option (\<lambda>n. n + 1) (location (driver s))\<rparr>,
                  current_page := current_page s + 1\<rparr>))"
proof -
  have 1: "get_next_page s = (Inr False, log_info ''End of Health Ministry data pages'' [] s) \<and>
        current_page (snd (get_next_page s)) = current_page s \<and>
        driver (snd (get_next_page s)) = driver s" if "l = None"
  proof -
    from that assms have pg: "pagination (loaded_page (driver s)) = Some (Pagination None)"
      by simp
    show ?thesis by (simp add: get_next_page_no_link [OF pg])
  qed
  have 2: "\<exists>s'. scrape_mh_data s = Some (full_data s', s') \<and>
             full_data s' = full_data (extract_view_buttons_data bs s) \<and>
             current_page s' = current_page s \<and> driver s' = driver s"
    if a: "l = None \<and> hosp (loaded_page (driver s)) = Some (Table (Some (TBody bs))) \<and>
          \<not> (test s \<and> current_page s mod 3 = 2) \<and> stop_page s \<noteq> Some (current_page s)"
  proof -
    from a assms have pg: "pagination (loaded_page (driver s)) = Some (Pagination None)" by simp
    from a have h: "hosp (loaded_page (driver s)) = Some (Table (Some (TBody bs)))"
      and nt: "\<not> (test s \<and> current_page s mod 3 = 2)"
      and ns: "stop_page s \<noteq> Some (current_page s)" by simp_all
    from run_last_page [OF h pg nt ns] obtain s' where "scrape_loop s = Some s'"
      and "full_data s' = full_data (extract_view_buttons_data bs s)"
      and "current_page s' = current_page s" and "driver s' = driver s"
      by blast
    with scrape_mh_data_Some [of s s'] show ?thesis by blast
  qed
  have 3: "get_next_page s =
      (Inr True,
       s\<lparr>driver := (driver s)\<lparr>location := map_option (\<lambda>n. n + 1) (location (driver s))\<rparr>,
          current_page := current_page s + 1\<rparr>)" if "l = Some (Link None)"
  proof -
    from that assms
    have "pagination (loaded_page (driver s)) = Some (Pagination (Some (Link None)))" by simp
    then show ?thesis by (rule get_next_page_click)
  qed
  from 1 2 3 show ?thesis by blast
qed

text \<open>
  The step on the three-page listing: on page 3, the last one, the run of the full mode
  ends with the record of facility 3; on page 1 the counter moves to page 2.
\<close>

theorem page_advance_step_witness:
  "pagination (loaded_page (driver (MHScrapper False 3 None listing))) = Some (Pagination None) \<and>
   get_next_page (MHScrapper False 3 None listing) =
     (Inr False,
      log_info ''End of Health Ministry data pages'' [] (MHScrapper False 3 None listing)) \<and>
   (\<exists>s'. scrape_mh_data (MHScrapper False 3 None listing) = Some (full_data s', s') \<and>
          full_data s' = full_data (extract_view_buttons_data [view_button ''3'']
                                      (MHScrapper False 3 None listing)) \<and>
          current_page s' = 3) \<and>
   pagination (loaded_page (driver (MHScrapper False 1 None listing)))
     = Some (Pagination (Some (Link None))) \<and>
   current_page (snd (get_next_page (MHScrapper False 1 None listing))) = 2 \<and>
   location (driver (snd (get_next_page (MHScrapper False 1 None listing)))) = Some 2"
proof -
  note init3 = MHScrapper_online [of listing False 3 None, OF listing_pages(4)]
  note init1 = MHScrapper_online [of listing False 1 None, OF listing_pages(4)]
  have p3: "pagination (loaded_page (driver (MHScrapper False 3 None listing))) = Some (Pagination None)"
    and h3: "hosp (loaded_page (driver (MHScrapper False 3 None listing)))
       = Some (Table (Some (TBody [view_button ''3''])))"
    by (simp_all add: init3 loaded_page_def listing_pages listing_page_simps)
  have p1: "pagination (loaded_page (driver (MHScrapper False 1 None listing)))
     = Some (Pagination (Some (Link None)))"
    by (simp add: init1 loaded_page_def listing_pages listing_page_simps)
  from page_advance_step [OF p3, of "[view_button ''3'']"] h3
  have "get_next_page (MHScrapper False 3 None listing) =
     (Inr False,
      log_info ''End of Health Ministry data pages'' [] (MHScrapper False 3 None listing))"
    and "\<exists>s'. scrape_mh_data (MHScrapper False 3 None listing) = Some (full_data s', s') \<and>
          full_data s' = full_data (extract_view_buttons_data [view_button ''3'']
                                      (MHScrapper False 3 None listing)) \<and>
          current_page s' = 3"
    by (auto simp: init3)
  moreover from page_advance_step [OF p1, of "[]"]
  have "current_page (snd (get_next_page (MHScrapper False 1 None listing))) = 2"
    and "location (driver (snd (get_next_page (MHScrapper False 1 None listing)))) = Some 2"
    by (simp_all add: init1)
  ultimately show ?thesis using p3 p1 by blast
qed

subsection \<open>C7: a missing attribute\<close>

text \<open>
  C7: for an action element none of whose attribute reads raises and which lacks some
  attribute \<open>a\<close> (for \<^verbatim>\<open>data-website\<close>: the \<^verbatim>\<open>website\<close> field of the contact record),
  the extraction does not fail: it appends to each of the seven collections the one
  record its table describes. Every field of these records holds the raw value of the
  attribute the table names for it, and every field read from \<open>a\<close> holds \<open>None\<close>, the
  absent marker.
\<close>

theorem missing_attribute_absent_marker:
  assumes "\<forall>name. \<exists>v. get_attribute b name = Inr v"
    and "get_attribute b a = Inr None"
  shows "extract_data b s =
           (Inr (), s\<lparr>page_rows := page_rows s @ [built b page_rows_fields],
                      identifiers := identifiers s @ [built b identifiers_fields],
                      locations := locations s @ [built b location_fields],
                      contacts := contacts s @ [built b contacts_fields],
                      status := status s @ [built b status_fields],
                      services := services s @ [built b services_fields],
                      personnel := personnel s @ [built b personnel_fields]\<rparr>) \<and>
         (\<forall>table\<in>set schema. \<forall>(k, attr)\<in>set table.
            map_of (built b table) k = Some (projr (get_attribute b attr)) \<and>
            (attr = a \<longrightarrow> map_of (built b table) k = Some None)) \<and>
         (a = ''data-website'' \<longrightarrow> map_of (built b contacts_fields) ''website'' = Some None)"
proof -
  have e: "extract_data b s =
           (Inr (), s\<lparr>page_rows := page_rows s @ [built b page_rows_fields],
                      identifiers := identifiers s @ [built b identifiers_fields],
                      locations := locations s @ [built b location_fields],
                      contacts := contacts s @ [built b contacts_fields],
                      status := status s @ [built b status_fields],
                      services := services s @ [built b services_fields],
                      personnel := personnel s @ [built b personnel_fields]\<rparr>)"
  proof -
    from assms(1) obtain v where v: "\<And>name. get_attribute b name = Inr (v name)" by metis
    have "page_rows_data b = Inr (built b page_rows_fields)"
      by (simp add: page_rows_data_def built_def page_rows_fields_def v)
    moreover have "identifiers_data b = Inr (built b identifiers_fields)"
      by (simp add: identifiers_data_def built_def identifiers_fields_def v)
    moreover have "location_data b = Inr (built b location_fields)"
      by (simp add: location_data_def built_def location_fields_def v)
    moreover have "contacts_data b = Inr (built b contacts_fields)"
      by (simp add: contacts_data_def built_def contacts_fields_def v)
    moreover have "status_data b = Inr (built b status_fields)"
      by (simp add: status_data_def built_def status_fields_def v)
    moreover have "services_data b = Inr (built b services_fields)"
      by (simp add: services_data_def built_def services_fields_def v)
    moreover have "personnel_data b = Inr (built b personnel_fields)"
      by (simp add: personnel_data_def built_def personnel_fields_def v)
    ultimately show ?thesis
      by (simp add: extract_data_def get_page_rows_def get_identifiers_def get_location_def
          get_contacts_def get_status_def get_services_def get_personnel_def)
  qed
  have f: "\<forall>table\<in>set schema. \<forall>(k, attr)\<in>set table.
            map_of (built b table) k = Some (projr (get_attribute b attr)) \<and>
            (attr = a \<longrightarrow> map_of (built b table) k = Some None)"
  proof (intro ballI, clarify)
    fix table k attr
    assume t: "table \<in> set schema" and m: "(k, attr) \<in> set table"
    from schema_keys_distinct t have "distinct (map fst table)" by blast
    from built_field [OF this m]
    have v: "map_of (built b table) k = Some (projr (get_attribute b attr))" .
    with assms(2) show "map_of (built b table) k = Some (projr (get_attribute b attr)) \<and>
        (attr = a \<longrightarrow> map_of (built b table) k = Some None)"
      by simp
  qed
  have "contacts_fields \<in> set schema" "(''website'', ''data-website'') \<in> set contacts_fields"
    by (simp_all add: schema_def contacts_fields_def)
  with f have "a = ''data-website'' \<longrightarrow> map_of (built b contacts_fields) ''website'' = Some None"
    by blast
  with e f show ?thesis by blast
qed

text \<open>
  The example button has \<^verbatim>\<open>data-id\<close>, \<^verbatim>\<open>data-facility_name\<close> and \<^verbatim>\<open>data-state\<close>
  only: its contact record holds the identifier and four absent markers, and its summary
  row is appended all the same.
\<close>

theorem missing_attribute_absent_marker_witness:
  "(\<forall>name. \<exists>v. get_attribute (view_button ''5'') name = Inr v) \<and>
   get_attribute (view_button ''5'') ''data-website'' = Inr None \<and>
   fst (extract_data (view_button ''5'') (MHScrapper True 1 None listing)) = Inr () \<and>
   contacts (snd (extract_data (view_button ''5'') (MHScrapper True 1 None listing))) =
     [[(''facility_uid'', Some ''5''), (''phone_number'', None), (''alternate_number'', None),
       (''email_address'', None), (''website'', None)]] \<and>
   page_rows (snd (extract_data (view_button ''5'') (MHScrapper True 1 None listing))) =
     [[(''state'', Some ''Lagos''), (''lga'', None), (''ward'', None),
       (''facility_uid'', Some ''5''), (''facility_code'', None),
       (''facility_name'', Some ''Clinic''), (''facility_level'', None),
       (''ownership'', None)]] \<and>
   map_of (built (view_button ''5'') contacts_fields) ''website'' = Some None \<and>
   full_data (snd (extract_data (view_button ''5'') (MHScrapper True 1 None listing))) =
     [(''page_rows'', [built (view_button ''5'') page_rows_fields]),
      (''identifiers'', [built (view_button ''5'') identifiers_fields]),
      (''locations'', [built (view_button ''5'') location_fields]),
      (''contacts'', [built (view_button ''5'') contacts_fields]),
      (''status'', [built (view_button ''5'') status_fields]),
      (''services'', [built (view_button ''5'') services_fields]),
      (''personnel'', [built (view_button ''5'') personnel_fields])]"
proof -
  let ?s = "MHScrapper True 1 None listing"
  have raw: "full_data (snd (extract_data (view_button ''5'') ?s)) =
     [(''page_rows'', [built (view_button ''5'') page_rows_fields]),
      (''identifiers'', [built (view_button ''5'') identifiers_fields]),
      (''locations'', [built (view_button ''5'') location_fields]),
      (''contacts'', [built (view_button ''5'') contacts_fields]),
      (''status'', [built (view_button ''5'') status_fields]),
      (''services'', [built (view_button ''5'') services_fields]),
      (''personnel'', [built (view_button ''5'') personnel_fields])]"
    by (simp add: raw_defs example_defs built_def page_rows_fields_def identifiers_fields_def
        location_fields_def contacts_fields_def status_fields_def services_fields_def
        personnel_fields_def)
  have h: "\<forall>name. \<exists>v. get_attribute (view_button ''5'') name = Inr v"
    "get_attribute (view_button ''5'') ''data-website'' = Inr None"
    by (simp_all add: get_attribute_def view_button_def)
  note T = missing_attribute_absent_marker [OF h, of ?s]
  from T have e: "extract_data (view_button ''5'') ?s =
           (Inr (), ?s\<lparr>page_rows := page_rows ?s @ [built (view_button ''5'') page_rows_fields],
                      identifiers := identifiers ?s @ [built (view_button ''5'') identifiers_fields],
                      locations := locations ?s @ [built (view_button ''5'') location_fields],
                      contacts := contacts ?s @ [built (view_button ''5'') contacts_fields],
                      status := status ?s @ [built (view_button ''5'') status_fields],
                      services := services ?s @ [built (view_button ''5'') services_fields],
                      personnel := personnel ?s @ [built (view_button ''5'') personnel_fields]\<rparr>)"
    by blast
  from T have w: "map_of (built (view_button ''5'') contacts_fields) ''website'' = Some None"
    by blast
  have empty: "contacts ?s = []" "page_rows ?s = []"
    using MHScrapper_collections [of True 1 None listing]
    by (simp_all add: all_less_7 collections_nth)
  have c: "built (view_button ''5'') contacts_fields =
     [(''facility_uid'', Some ''5''), (''phone_number'', None), (''alternate_number'', None),
       (''email_address'', None), (''website'', None)]"
    by (simp add: built_def contacts_fields_def get_attribute_def view_button_def)
  have p: "built (view_button ''5'') page_rows_fields =
     [(''state'', Some ''Lagos''), (''lga'', None), (''ward'', None),
       (''facility_uid'', Some ''5''), (''facility_code'', None),
       (''facility_name'', Some ''Clinic''), (''facility_level'', None),
       (''ownership'', None)]"
    by (simp add: built_def page_rows_fields_def get_attribute_def view_button_def)
  from e have "fst (extract_data (view_button ''5'') ?s) = Inr ()"
    and "contacts (snd (extract_data (view_button ''5'') ?s)) =
      [built (view_button ''5'') contacts_fields]"
    and "page_rows (snd (extract_data (view_button ''5'') ?s)) =
      [built (view_button ''5'') page_rows_fields]"
    by (simp_all add: empty)
  with h w c p raw show ?thesis by simp
qed

subsection \<open>C8: running again on the same listing\<close>

text \<open>
  C8 says that two runs with the same constructor arguments on an unchanged listing
  return the same bundle. Here a run is a function of the constructor arguments and of
  the site, and the site is a value that no operation of the driver writes, so the
  statement about two runs is an instance of reflexivity for any body of the run: it
  would say nothing of the code. Whether a real browser answers twice alike and whether
  the requests leave the server as it was are properties of the browser and of the
  server, outside this embedding. No theorem is stated for C8.
\<close>

subsection \<open>C9: no pagination container\<close>

text \<open>
  C9: when the loaded page has no pagination container and no stop condition holds for
  the current page (so that the iteration goes as far as \<^verbatim>\<open>get_next_page\<close> whenever
  the table is found), the lookup of the container raises and the exception leaves
  \<^verbatim>\<open>get_next_page\<close> with the state untouched; the iteration ends with an exception,
  which the handler of the loop catches, and the browser and the page counter are as
  before; the run never returns.
\<close>

theorem no_pagination_container_never_returns:
  assumes "pagination (loaded_page (driver s)) = None"
    and "\<not> (test s \<and> current_page s mod 3 = 2)"
    and "stop_page s \<noteq> Some (current_page s)"
  shows "(\<forall>t. driver t = driver s \<longrightarrow> get_next_page t = (Inl NoSuchElementException, t)) \<and>
         (\<exists>e s1. scrape_iteration s = (Inl e, s1) \<and> driver s1 = driver s \<and>
                  current_page s1 = current_page s \<and>
                  (table_found (loaded_page (driver s)) \<longrightarrow> e = NoSuchElementException)) \<and>
         scrape_mh_data s = None"
proof -
  have 1: "\<forall>t. driver t = driver s \<longrightarrow> get_next_page t = (Inl NoSuchElementException, t)"
    using assms(1) by (simp add: get_next_page_no_pagination)
  have "\<exists>e s1. scrape_iteration s = (Inl e, s1) \<and>
          (table_found (loaded_page (driver s)) \<longrightarrow> e = NoSuchElementException)"
  proof (cases "loaded_page (driver s)" rule: hosp_cases)
    case 1
    then show ?thesis by (simp add: scrape_iteration_no_table table_found_def)
  next
    case 2
    then show ?thesis by (simp add: scrape_iteration_no_tbody)
  next
    case (3 bs)
    with assms show ?thesis
      by (simp add: scrape_iteration_table Let_def get_next_page_no_pagination)
  qed
  then obtain e s1 where it: "scrape_iteration s = (Inl e, s1)"
    and e: "table_found (loaded_page (driver s)) \<longrightarrow> e = NoSuchElementException"
    by blast
  from scrape_iteration_raises [OF it] it e
  have 2: "\<exists>e s1. scrape_iteration s = (Inl e, s1) \<and> driver s1 = driver s \<and>
                  current_page s1 = current_page s \<and>
                  (table_found (loaded_page (driver s)) \<longrightarrow> e = NoSuchElementException)"
    by blast
  have 3: "scrape_mh_data s = None"
    using assms by (intro scrape_mh_data_None no_pagination_diverges)
  from 1 2 3 show ?thesis by blast
qed

theorem no_pagination_container_never_returns_witness:
  "pagination (loaded_page (driver (MHScrapper False 1 None no_pager))) = None \<and>
   \<not> (test (MHScrapper False 1 None no_pager) \<and>
      current_page (MHScrapper False 1 None no_pager) mod 3 = 2) \<and>
   stop_page (MHScrapper False 1 None no_pager)
     \<noteq> Some (current_page (MHScrapper False 1 None no_pager)) \<and>
   table_found (loaded_page (driver (MHScrapper False 1 None no_pager))) \<and>
   get_next_page (MHScrapper False 1 None no_pager)
     = (Inl NoSuchElementException, MHScrapper False 1 None no_pager) \<and>
   scrape_mh_data (MHScrapper False 1 None no_pager) = None"
proof -
  note init = MHScrapper_online [OF no_pager_pages(2), of False 1 None]
  have h: "pagination (loaded_page (driver (MHScrapper False 1 None no_pager))) = None"
    "\<not> (test (MHScrapper False 1 None no_pager) \<and>
      current_page (MHScrapper False 1 None no_pager) mod 3 = 2)"
    "stop_page (MHScrapper False 1 None no_pager)
     \<noteq> Some (current_page (MHScrapper False 1 None no_pager))"
    and tf: "table_found (loaded_page (driver (MHScrapper False 1 None no_pager)))"
    by (simp_all add: init loaded_page_def no_pager_pages table_found_def)
  from h tf no_pagination_container_never_returns [OF h] show ?thesis by blast
qed

subsection \<open>C10: the stop page in test mode\<close>

text \<open>
  C10: the stop-page check is made in test mode too. In test mode with the stop page
  equal to the current page, on a page whose table is found, the run ends after
  extracting that page, whatever the page number modulo 3: the page counter and the
  browser stay on that page and the bundle holds the records of its view buttons. The
  test-mode check comes first: the last log line names the test condition when the page
  number modulo 3 is 2 and the stop page otherwise.
\<close>

theorem stop_page_checked_in_test_mode:
  assumes "test s" "stop_page s = Some (current_page s)"
    and "hosp (loaded_page (driver s)) = Some (Table (Some (TBody bs)))"
  shows "\<exists>s'. scrape_mh_data s = Some (full_data s', s') \<and>
           full_data s' = full_data (extract_view_buttons_data bs s) \<and>
           current_page s' = current_page s \<and> driver s' = driver s \<and>
           last (logger s') =
             (INFO, if current_page s mod 3 = 2
                    then ''Test conditions have been met, stopping extraction...''
                    else ''Stop page conditions have been met, stopping extraction...'', [])"
proof -
  have "(test s \<and> current_page s mod 3 = 2) \<or> stop_page s = Some (current_page s)"
    using assms(2) by simp
  from run_stops [OF assms(3) this] obtain s' where "scrape_loop s = Some s'"
    and "full_data s' = full_data (extract_view_buttons_data bs s)"
    and "current_page s' = current_page s" and "driver s' = driver s"
    and "last (logger s') =
             (INFO, if test s \<and> current_page s mod 3 = 2
                    then ''Test conditions have been met, stopping extraction...''
                    else ''Stop page conditions have been met, stopping extraction...'', [])"
    by blast
  with scrape_mh_data_Some [of s s'] assms(1) show ?thesis by auto
qed

theorem stop_page_checked_in_test_mode_witness:
  "test (MHScrapper True 1 (Some 1) listing) \<and>
   stop_page (MHScrapper True 1 (Some 1) listing)
     = Some (current_page (MHScrapper True 1 (Some 1) listing)) \<and>
   current_page (MHScrapper True 1 (Some 1) listing) mod 3 \<noteq> 2 \<and>
   hosp (loaded_page (driver (MHScrapper True 1 (Some 1) listing)))
     = Some (Table (Some (TBody [view_button ''1'']))) \<and>
   (\<exists>s'. scrape_mh_data (MHScrapper True 1 (Some 1) listing) = Some (full_data s', s') \<and>
          full_data s' = full_data (extract_view_buttons_data [view_button ''1'']
                                      (MHScrapper True 1 (Some 1) listing)) \<and>
          current_page s' = 1 \<and>
          last (logger s') =
            (INFO, ''Stop page conditions have been met, stopping extraction...'', []))"
proof -
  note init = MHScrapper_online [of listing True 1 "Some 1", OF listing_pages(4)]
  have h: "test (MHScrapper True 1 (Some 1) listing)"
    "stop_page (MHScrapper True 1 (Some 1) listing)
     = Some (current_page (MHScrapper True 1 (Some 1) listing))"
    "hosp (loaded_page (driver (MHScrapper True 1 (Some 1) listing)))
     = Some (Table (Some (TBody [view_button ''1''])))"
    and m: "current_page (MHScrapper True 1 (Some 1) listing) mod 3 \<noteq> 2"
    by (simp_all add: init loaded_page_def listing_pages listing_page_simps)
  from stop_page_checked_in_test_mode [OF h] h m show ?thesis
    by (auto simp: init)
qed


end
